theory Spec2Isabelle
  imports Main "HOL-Library.Char_ord" "HOL-Library.List_Lexorder" "HOL-Library.Sublist"
    "HOL-Library.Multiset" "HOL-Library.Monad_Syntax"
begin

section \<open>Strings\<close>

text \<open>
  The diagnosis codes and every code of the chapter table are ASCII text. In this
  section a Python \<open>str\<close> is a \<^typ>\<open>string\<close>, one \<^typ>\<open>char\<close> per character, and the
  string methods are Python's on ASCII text. Python compares two strings character by
  character on their code points; that is the lexicographic order of \<^typ>\<open>char list\<close>
  over the order of characters by their code. Strings with other characters are the
  subject of a later section, which gives the same methods on all code points.
\<close>

text \<open>
  \<open>str.upper()\<close>: a letter \<open>a\<close> .. \<open>z\<close> becomes \<open>A\<close> .. \<open>Z\<close> (its code minus 32, that
  is, with the bit of value 32 cleared); every other character is kept.
\<close>

definition upper_char :: "char \<Rightarrow> char" where
  "upper_char c =
     (if CHR ''a'' \<le> c \<and> c \<le> CHR ''z''
      then (case c of Char b0 b1 b2 b3 b4 b5 b6 b7 \<Rightarrow> Char b0 b1 b2 b3 b4 False b6 b7)
      else c)"

definition upper :: "string \<Rightarrow> string" where
  "upper s = map upper_char s"

text \<open>
  \<open>str.isspace()\<close> on one ASCII character: tab, line feed, vertical tab, form feed,
  carriage return (9 .. 13), the four separators 28 .. 31, and the space (32).
\<close>

definition isspace :: "char \<Rightarrow> bool" where
  "isspace c = (CHR 0x09 \<le> c \<and> c \<le> CHR 0x0D \<or> CHR 0x1C \<le> c \<and> c \<le> CHR 0x20)"

text \<open>\<open>str.strip()\<close>: the whitespace at both ends is removed.\<close>

definition strip :: "string \<Rightarrow> string" where
  "strip s = rev (dropWhile isspace (rev (dropWhile isspace s)))"

text \<open>\<open>s.startswith(p)\<close>.\<close>

fun startswith :: "'a list \<Rightarrow> 'a list \<Rightarrow> bool" where
  "startswith s [] = True"
| "startswith [] (p # ps) = False"
| "startswith (c # cs) (p # ps) = (c = p \<and> startswith cs ps)"

section \<open>Values passed to \<open>str()\<close>\<close>

text \<open>
  \<open>find_category\<close> starts with \<open>str(code)\<close>, so its argument need not be a string.
  The values modelled are strings, integers, booleans and \<open>None\<close>; floating point
  numbers are not modelled.
\<close>

datatype pyval = PyStr string | PyInt int | PyBool bool | PyNone

definition digit_char :: "nat \<Rightarrow> char" where
  "digit_char d = ''0123456789'' ! d"

fun digits :: "nat \<Rightarrow> string" where
  "digits n = (if n < 10 then [digit_char n] else digits (n div 10) @ [digit_char (n mod 10)])"

declare digits.simps [simp del]

text \<open>
  \<open>str()\<close> of an integer is its decimal numeral, with a minus sign when negative.
  CPython refuses the conversion with a \<open>ValueError\<close> when the numeral has more than
  4300 digits (the default of \<open>sys.int_info.default_max_str_digits\<close>), that is, from
  \<open>10 ^ 4300\<close> on in absolute value. An exception is the left summand of the result.
\<close>

datatype error = ValueError

definition default_max_str_digits :: nat where
  "default_max_str_digits = 4300"

fun py_str :: "pyval \<Rightarrow> error + string" where
  "py_str (PyStr s) = Inr s"
| "py_str (PyInt i) =
     (if 10 ^ default_max_str_digits \<le> \<bar>i\<bar> then Inl ValueError
      else Inr (if i < 0 then CHR ''-'' # digits (nat (- i)) else digits (nat i)))"
| "py_str (PyBool b) = Inr (if b then ''True'' else ''False'')"
| "py_str PyNone = Inr ''None''"

text \<open>
  \<open>Series.apply(f)\<close> and \<open>astype\<close> call a function on the elements of a column in
  turn; the first exception ends the call.
\<close>

fun series_apply :: "('a \<Rightarrow> error + 'b) \<Rightarrow> 'a list \<Rightarrow> error + 'b list" where
  "series_apply f [] = Inr []"
| "series_apply f (x # xs) =
     (case f x of
        Inl e \<Rightarrow> Inl e
      | Inr y \<Rightarrow> (case series_apply f xs of Inl e \<Rightarrow> Inl e | Inr ys \<Rightarrow> Inr (y # ys)))"

section \<open>The chapter ranges\<close>

text \<open>
  \<open>icd11_ranges\<close> is a dictionary literal with 22 distinct keys; iterating over its
  \<open>items()\<close> yields them in the order written. An entry is
  \<open>(category, (start, end))\<close>.
\<close>

type_synonym 'a chapter_range = "string \<times> 'a list \<times> 'a list"

definition icd11_ranges :: "char chapter_range list" where
  "icd11_ranges =
    [(''1. Certain infectious or parasitic diseases'', ''1A00'', ''1H0Z''),
     (''2. Neoplasms'', ''2A00'', ''2F9Z''),
     (''3. Diseases of the blood or blood-forming organs'', ''3A00'', ''3C0Z''),
     (''4. Diseases of the immune system'', ''4A00'', ''4B4Z''),
     (''5. Endocrine, nutritional and metabolic diseases'', ''5A00'', ''5D46''),
     (''6. Mental, behavioural and neurodevelopmental disorders'', ''6A00'', ''6E8Z''),
     (''7. Sleep-wake disorders'', ''7A00'', ''7B2Z''),
     (''8. Diseases of the nervous system'', ''8A00'', ''8E7Z''),
     (''9. Diseases of the visual system'', ''9A00'', ''9E1Z''),
     (''10. Diseases of the ear or mastoid process'', ''AA00'', ''AC0Z''),
     (''11. Diseases of the circulatory system'', ''BA00'', ''BE2Z''),
     (''12. Diseases of the respiratory system'', ''CA00'', ''CB7Z''),
     (''13. Diseases of the digestive system'', ''DA00'', ''DE2Z''),
     (''14. Diseases of the skin or subcutaneous tissue'', ''EA00'', ''EM0Z''),
     (''15. Diseases of musculoskeletal system'', ''FA00'', ''FC0Z''),
     (''16. Diseases of the genitourinary system'', ''GA00'', ''GC8Z''),
     (''17. Sexual health conditions'', ''HA00'', ''HA8Z''),
     (''18. Pregnancy/childbirth'', ''JA00'', ''JB6Z''),
     (''19. Perinatal conditions'', ''KA00'', ''KD5Z''),
     (''20. Developmental anomalies'', ''LA00'', ''LD9Z''),
     (''21. Symptoms/clinical findings NEC'', ''MA00'', ''MH2Y''),
     (''22. Injury/poisoning/external causes'', ''NA00'', ''NF2Z'')]"

section \<open>The category function\<close>

text \<open>
  The loop of \<open>find_category\<close> over the items still to be visited: an entry returns its
  category when the code lies in its range, and otherwise when the code starts with the
  first two characters of its start code; only then the next entry is looked at. When
  the items are used up the function returns \<open>Unknown\<close>.
\<close>

fun find_category_loop :: "('a :: linorder) chapter_range list \<Rightarrow> 'a list \<Rightarrow> string" where
  "find_category_loop [] code = ''Unknown''"
| "find_category_loop ((category, start, end) # items) code =
     (if start \<le> code \<and> code \<le> end then category
      else if startswith code (take 2 start) then category
      else find_category_loop items code)"

definition find_category :: "pyval \<Rightarrow> error + string" where
  "find_category code =
     (case py_str code of
        Inl e \<Rightarrow> Inl e
      | Inr s \<Rightarrow> Inr (find_category_loop icd11_ranges (upper (strip s))))"

text \<open>
  Notions used to reason about the loop. An entry matches a code when one of the two
  tests of the loop body succeeds. The head of an entry is the first character of its
  start code; an entry is headed when its start and end codes are non-empty and begin
  with the same character.
\<close>

definition entry_matches :: "('a :: linorder) chapter_range \<Rightarrow> 'a list \<Rightarrow> bool" where
  "entry_matches e code =
     (case e of (category, start, end) \<Rightarrow>
        start \<le> code \<and> code \<le> end \<or> startswith code (take 2 start))"

definition entry_head :: "'a chapter_range \<Rightarrow> 'a" where
  "entry_head e = (case e of (category, start, end) \<Rightarrow> hd start)"

definition headed :: "'a chapter_range \<Rightarrow> bool" where
  "headed e =
     (case e of (category, start, end) \<Rightarrow> start \<noteq> [] \<and> end \<noteq> [] \<and> hd start = hd end)"

section \<open>Strings beyond ASCII\<close>

text \<open>
  A Python string is a sequence of Unicode code points, and \<open>strip\<close> and \<open>upper\<close> act on
  all of them. To state what \<open>find_category\<close> does on any string, the string is given
  here as the list of its code points, and the two methods are modelled on every code
  point, with the tables of CPython 3.11 (Unicode 14.0.0).

  \<open>str.upper()\<close> maps every code point on its own. A run \<open>(lo, hi, step, target)\<close>
  stands for the code points \<open>lo\<close>, \<open>lo + step\<close>, ... up to \<open>hi\<close>, whose upper case is
  \<open>target\<close>, \<open>target + step\<close>, ... in the same order. The runs are kept in blocks of
  sixteen; \<open>run_bounds\<close> lists the blocks, each with the least and the greatest code
  point it holds.
\<close>

definition upper_runs_0 :: "(nat \<times> nat \<times> nat \<times> nat) list" where
  "upper_runs_0 =
    [(97, 122, 1, 65), (181, 181, 2, 924), (224, 246, 1, 192), (248, 254, 1, 216),
     (255, 255, 2, 376), (257, 303, 2, 256), (305, 305, 2, 73), (307, 311, 2, 306),
     (314, 328, 2, 313), (331, 375, 2, 330), (378, 382, 2, 377), (383, 383, 2, 83),
     (384, 384, 2, 579), (387, 389, 2, 386), (392, 392, 2, 391), (396, 396, 2, 395)]"

definition upper_runs_1 :: "(nat \<times> nat \<times> nat \<times> nat) list" where
  "upper_runs_1 =
    [(402, 402, 2, 401), (405, 405, 2, 502), (409, 409, 2, 408), (410, 410, 2, 573),
     (414, 414, 2, 544), (417, 421, 2, 416), (424, 424, 2, 423), (429, 429, 2, 428),
     (432, 432, 2, 431), (436, 438, 2, 435), (441, 441, 2, 440), (445, 445, 2, 444),
     (447, 447, 2, 503), (453, 453, 2, 452), (454, 454, 2, 452), (456, 456, 2, 455)]"

definition upper_runs_2 :: "(nat \<times> nat \<times> nat \<times> nat) list" where
  "upper_runs_2 =
    [(457, 457, 2, 455), (459, 459, 2, 458), (460, 460, 2, 458), (462, 476, 2, 461),
     (477, 477, 2, 398), (479, 495, 2, 478), (498, 498, 2, 497), (499, 499, 2, 497),
     (501, 501, 2, 500), (505, 543, 2, 504), (547, 563, 2, 546), (572, 572, 2, 571),
     (575, 576, 1, 11390), (578, 578, 2, 577), (583, 591, 2, 582), (592, 592, 2, 11375)]"

definition upper_runs_3 :: "(nat \<times> nat \<times> nat \<times> nat) list" where
  "upper_runs_3 =
    [(593, 593, 2, 11373), (594, 594, 2, 11376), (595, 595, 2, 385), (596, 596, 2, 390),
     (598, 599, 1, 393), (601, 601, 2, 399), (603, 603, 2, 400), (604, 604, 2, 42923),
     (608, 608, 2, 403), (609, 609, 2, 42924), (611, 611, 2, 404), (613, 613, 2, 42893),
     (614, 614, 2, 42922), (616, 616, 2, 407), (617, 617, 2, 406), (618, 618, 2, 42926)]"

definition upper_runs_4 :: "(nat \<times> nat \<times> nat \<times> nat) list" where
  "upper_runs_4 =
    [(619, 619, 2, 11362), (620, 620, 2, 42925), (623, 623, 2, 412), (625, 625, 2, 11374),
     (626, 626, 2, 413), (629, 629, 2, 415), (637, 637, 2, 11364), (640, 640, 2, 422),
     (642, 642, 2, 42949), (643, 643, 2, 425), (647, 647, 2, 42929), (648, 648, 2, 430),
     (649, 649, 2, 580), (650, 651, 1, 433), (652, 652, 2, 581), (658, 658, 2, 439)]"

definition upper_runs_5 :: "(nat \<times> nat \<times> nat \<times> nat) list" where
  "upper_runs_5 =
    [(669, 669, 2, 42930), (670, 670, 2, 42928), (837, 837, 2, 921), (881, 883, 2, 880),
     (887, 887, 2, 886), (891, 893, 1, 1021), (940, 940, 2, 902), (941, 943, 1, 904),
     (945, 961, 1, 913), (962, 962, 2, 931), (963, 971, 1, 931), (972, 972, 2, 908),
     (973, 974, 1, 910), (976, 976, 2, 914), (977, 977, 2, 920), (981, 981, 2, 934)]"

definition upper_runs_6 :: "(nat \<times> nat \<times> nat \<times> nat) list" where
  "upper_runs_6 =
    [(982, 982, 2, 928), (983, 983, 2, 975), (985, 1007, 2, 984), (1008, 1008, 2, 922),
     (1009, 1009, 2, 929), (1010, 1010, 2, 1017), (1011, 1011, 2, 895),
     (1013, 1013, 2, 917), (1016, 1016, 2, 1015), (1019, 1019, 2, 1018),
     (1072, 1103, 1, 1040), (1104, 1119, 1, 1024), (1121, 1153, 2, 1120),
     (1163, 1215, 2, 1162), (1218, 1230, 2, 1217), (1231, 1231, 2, 1216)]"

definition upper_runs_7 :: "(nat \<times> nat \<times> nat \<times> nat) list" where
  "upper_runs_7 =
    [(1233, 1327, 2, 1232), (1377, 1414, 1, 1329), (4304, 4346, 1, 7312),
     (4349, 4351, 1, 7357), (5112, 5117, 1, 5104), (7296, 7296, 2, 1042),
     (7297, 7297, 2, 1044), (7298, 7298, 2, 1054), (7299, 7300, 1, 1057),
     (7301, 7301, 2, 1058), (7302, 7302, 2, 1066), (7303, 7303, 2, 1122),
     (7304, 7304, 2, 42570), (7545, 7545, 2, 42877), (7549, 7549, 2, 11363),
     (7566, 7566, 2, 42950)]"

definition upper_runs_8 :: "(nat \<times> nat \<times> nat \<times> nat) list" where
  "upper_runs_8 =
    [(7681, 7829, 2, 7680), (7835, 7835, 2, 7776), (7841, 7935, 2, 7840),
     (7936, 7943, 1, 7944), (7952, 7957, 1, 7960), (7968, 7975, 1, 7976),
     (7984, 7991, 1, 7992), (8000, 8005, 1, 8008), (8017, 8023, 2, 8025),
     (8032, 8039, 1, 8040), (8048, 8049, 1, 8122), (8050, 8053, 1, 8136),
     (8054, 8055, 1, 8154), (8056, 8057, 1, 8184), (8058, 8059, 1, 8170),
     (8060, 8061, 1, 8186)]"

definition upper_runs_9 :: "(nat \<times> nat \<times> nat \<times> nat) list" where
  "upper_runs_9 =
    [(8112, 8113, 1, 8120), (8126, 8126, 2, 921), (8144, 8145, 1, 8152),
     (8160, 8161, 1, 8168), (8165, 8165, 2, 8172), (8526, 8526, 2, 8498),
     (8560, 8575, 1, 8544), (8580, 8580, 2, 8579), (9424, 9449, 1, 9398),
     (11312, 11359, 1, 11264), (11361, 11361, 2, 11360), (11365, 11365, 2, 570),
     (11366, 11366, 2, 574), (11368, 11372, 2, 11367), (11379, 11379, 2, 11378),
     (11382, 11382, 2, 11381)]"

definition upper_runs_10 :: "(nat \<times> nat \<times> nat \<times> nat) list" where
  "upper_runs_10 =
    [(11393, 11491, 2, 11392), (11500, 11502, 2, 11499), (11507, 11507, 2, 11506),
     (11520, 11557, 1, 4256), (11559, 11559, 2, 4295), (11565, 11565, 2, 4301),
     (42561, 42605, 2, 42560), (42625, 42651, 2, 42624), (42787, 42799, 2, 42786),
     (42803, 42863, 2, 42802), (42874, 42876, 2, 42873), (42879, 42887, 2, 42878),
     (42892, 42892, 2, 42891), (42897, 42899, 2, 42896), (42900, 42900, 2, 42948),
     (42903, 42921, 2, 42902)]"

definition upper_runs_11 :: "(nat \<times> nat \<times> nat \<times> nat) list" where
  "upper_runs_11 =
    [(42933, 42947, 2, 42932), (42952, 42954, 2, 42951), (42961, 42961, 2, 42960),
     (42967, 42969, 2, 42966), (42998, 42998, 2, 42997), (43859, 43859, 2, 42931),
     (43888, 43967, 1, 5024), (65345, 65370, 1, 65313), (66600, 66639, 1, 66560),
     (66776, 66811, 1, 66736), (66967, 66977, 1, 66928), (66979, 66993, 1, 66940),
     (66995, 67001, 1, 66956), (67003, 67004, 1, 66964), (68800, 68850, 1, 68736),
     (71872, 71903, 1, 71840)]"

definition upper_runs_12 :: "(nat \<times> nat \<times> nat \<times> nat) list" where
  "upper_runs_12 =
    [(93792, 93823, 1, 93760), (125218, 125251, 1, 125184)]"

definition run_block :: "nat \<Rightarrow> (nat \<times> nat \<times> nat \<times> nat) list" where
  "run_block i =
     (if i = 0 then upper_runs_0 else if i = 1 then upper_runs_1 else
      if i = 2 then upper_runs_2 else if i = 3 then upper_runs_3 else
      if i = 4 then upper_runs_4 else if i = 5 then upper_runs_5 else
      if i = 6 then upper_runs_6 else if i = 7 then upper_runs_7 else
      if i = 8 then upper_runs_8 else if i = 9 then upper_runs_9 else
      if i = 10 then upper_runs_10 else if i = 11 then upper_runs_11 else
      if i = 12 then upper_runs_12 else [])"

definition run_bounds :: "(nat \<times> nat \<times> nat) list" where
  "run_bounds =
    [(0, 97, 396), (1, 402, 456), (2, 457, 592), (3, 593, 618), (4, 619, 658),
     (5, 669, 981), (6, 982, 1231), (7, 1233, 7566), (8, 7681, 8061), (9, 8112, 11382),
     (10, 11393, 42921), (11, 42933, 71903), (12, 93792, 125251)]"

definition upper_runs :: "(nat \<times> nat \<times> nat \<times> nat) list" where
  "upper_runs = concat (map (\<lambda>(i, mn, mx). run_block i) run_bounds)"

text \<open>
  The code points whose upper case has more than one code point, such as the sharp s
  (223), which becomes \<open>SS\<close> (83, 83); again in blocks with their bounds.
\<close>

definition upper_special_0 :: "(nat \<times> nat list) list" where
  "upper_special_0 =
    [(223, [83, 83]), (329, [700, 78]), (496, [74, 780]), (912, [921, 776, 769]),
     (944, [933, 776, 769]), (1415, [1333, 1362]), (7830, [72, 817]), (7831, [84, 776]),
     (7832, [87, 778]), (7833, [89, 778]), (7834, [65, 702]), (8016, [933, 787]),
     (8018, [933, 787, 768]), (8020, [933, 787, 769]), (8022, [933, 787, 834]),
     (8064, [7944, 921])]"

definition upper_special_1 :: "(nat \<times> nat list) list" where
  "upper_special_1 =
    [(8065, [7945, 921]), (8066, [7946, 921]), (8067, [7947, 921]), (8068, [7948, 921]),
     (8069, [7949, 921]), (8070, [7950, 921]), (8071, [7951, 921]), (8072, [7944, 921]),
     (8073, [7945, 921]), (8074, [7946, 921]), (8075, [7947, 921]), (8076, [7948, 921]),
     (8077, [7949, 921]), (8078, [7950, 921]), (8079, [7951, 921]), (8080, [7976, 921])]"

definition upper_special_2 :: "(nat \<times> nat list) list" where
  "upper_special_2 =
    [(8081, [7977, 921]), (8082, [7978, 921]), (8083, [7979, 921]), (8084, [7980, 921]),
     (8085, [7981, 921]), (8086, [7982, 921]), (8087, [7983, 921]), (8088, [7976, 921]),
     (8089, [7977, 921]), (8090, [7978, 921]), (8091, [7979, 921]), (8092, [7980, 921]),
     (8093, [7981, 921]), (8094, [7982, 921]), (8095, [7983, 921]), (8096, [8040, 921])]"

definition upper_special_3 :: "(nat \<times> nat list) list" where
  "upper_special_3 =
    [(8097, [8041, 921]), (8098, [8042, 921]), (8099, [8043, 921]), (8100, [8044, 921]),
     (8101, [8045, 921]), (8102, [8046, 921]), (8103, [8047, 921]), (8104, [8040, 921]),
     (8105, [8041, 921]), (8106, [8042, 921]), (8107, [8043, 921]), (8108, [8044, 921]),
     (8109, [8045, 921]), (8110, [8046, 921]), (8111, [8047, 921]), (8114, [8122, 921])]"

definition upper_special_4 :: "(nat \<times> nat list) list" where
  "upper_special_4 =
    [(8115, [913, 921]), (8116, [902, 921]), (8118, [913, 834]), (8119, [913, 834, 921]),
     (8124, [913, 921]), (8130, [8138, 921]), (8131, [919, 921]), (8132, [905, 921]),
     (8134, [919, 834]), (8135, [919, 834, 921]), (8140, [919, 921]),
     (8146, [921, 776, 768]), (8147, [921, 776, 769]), (8150, [921, 834]),
     (8151, [921, 776, 834]), (8162, [933, 776, 768])]"

definition upper_special_5 :: "(nat \<times> nat list) list" where
  "upper_special_5 =
    [(8163, [933, 776, 769]), (8164, [929, 787]), (8166, [933, 834]),
     (8167, [933, 776, 834]), (8178, [8186, 921]), (8179, [937, 921]), (8180, [911, 921]),
     (8182, [937, 834]), (8183, [937, 834, 921]), (8188, [937, 921]), (64256, [70, 70]),
     (64257, [70, 73]), (64258, [70, 76]), (64259, [70, 70, 73]), (64260, [70, 70, 76]),
     (64261, [83, 84])]"

definition upper_special_6 :: "(nat \<times> nat list) list" where
  "upper_special_6 =
    [(64262, [83, 84]), (64275, [1348, 1350]), (64276, [1348, 1333]),
     (64277, [1348, 1339]), (64278, [1358, 1350]), (64279, [1348, 1341])]"

definition special_block :: "nat \<Rightarrow> (nat \<times> nat list) list" where
  "special_block i =
     (if i = 0 then upper_special_0 else if i = 1 then upper_special_1 else
      if i = 2 then upper_special_2 else if i = 3 then upper_special_3 else
      if i = 4 then upper_special_4 else if i = 5 then upper_special_5 else
      if i = 6 then upper_special_6 else [])"

definition special_bounds :: "(nat \<times> nat \<times> nat) list" where
  "special_bounds =
    [(0, 223, 8064), (1, 8065, 8080), (2, 8081, 8096), (3, 8097, 8114), (4, 8115, 8162),
     (5, 8163, 64261), (6, 64262, 64279)]"

definition upper_special :: "(nat \<times> nat list) list" where
  "upper_special = concat (map (\<lambda>(i, mn, mx). special_block i) special_bounds)"

definition in_run :: "nat \<times> nat \<times> nat \<times> nat \<Rightarrow> nat \<Rightarrow> bool" where
  "in_run r c =
     (case r of (lo, hi, step, target) \<Rightarrow> lo \<le> c \<and> c \<le> hi \<and> (c - lo) mod step = 0)"

text \<open>The upper case of one code point; a code point in neither table is kept.\<close>

definition to_upper :: "nat \<Rightarrow> nat list" where
  "to_upper c =
     (case map_of upper_special c of
        Some ds \<Rightarrow> ds
      | None \<Rightarrow>
          (case find (\<lambda>r. in_run r c) upper_runs of
             Some (lo, hi, step, target) \<Rightarrow> [target + (c - lo)]
           | None \<Rightarrow> [c]))"

definition unicode_upper :: "nat list \<Rightarrow> nat list" where
  "unicode_upper s = concat (map to_upper s)"

text \<open>
  The code points that \<open>str.isspace()\<close> accepts and \<open>str.strip()\<close> removes, as ranges
  with both ends included: besides the ASCII ones, the next-line and no-break spaces
  (133, 160) and the spaces and separators of the general punctuation block.
\<close>

definition whitespace_ranges :: "(nat \<times> nat) list" where
  "whitespace_ranges =
    [(9, 13), (28, 32), (133, 133), (160, 160), (5760, 5760), (8192, 8202), (8232, 8233),
     (8239, 8239), (8287, 8287), (12288, 12288)]"

definition is_whitespace :: "nat \<Rightarrow> bool" where
  "is_whitespace c = list_ex (\<lambda>(lo, hi). lo \<le> c \<and> c \<le> hi) whitespace_ranges"

definition unicode_strip :: "nat list \<Rightarrow> nat list" where
  "unicode_strip s = rev (dropWhile is_whitespace (rev (dropWhile is_whitespace s)))"

text \<open>
  The code points of an ASCII text, the chapter table with its codes as code points, and
  \<open>find_category\<close> on a string given by its code points (\<open>str()\<close> of a string is the
  string, so nothing is raised).
\<close>

definition codepoints :: "string \<Rightarrow> nat list" where
  "codepoints s = map of_char s"

definition unicode_ranges :: "nat chapter_range list" where
  "unicode_ranges =
     map (\<lambda>(category, start, end). (category, codepoints start, codepoints end)) icd11_ranges"

definition find_category_unicode :: "nat list \<Rightarrow> string" where
  "find_category_unicode code =
     find_category_loop unicode_ranges (unicode_upper (unicode_strip code))"

text \<open>
  Tests used to reason about the tables. The code points \<open>x\<close>, \<open>x + s\<close>, ... up to \<open>y\<close>
  are apart from a run when they lie below it, above it, or between its members. They
  are unchanged when they are apart from every run, from every code point of the
  second table and from the whitespace; a block whose bounds exclude them is passed
  over.
\<close>

definition apart :: "nat \<Rightarrow> nat \<Rightarrow> nat \<Rightarrow> nat \<Rightarrow> nat \<Rightarrow> nat \<Rightarrow> bool" where
  "apart x y s lo hi step =
     (y < lo \<or> hi < x \<or> (s = 2 \<and> step = 2 \<and> x mod 2 \<noteq> lo mod 2))"

definition apart_runs :: "nat \<Rightarrow> nat \<Rightarrow> nat \<Rightarrow> bool" where
  "apart_runs x y s =
     list_all (\<lambda>(i, mn, mx).
       if y < mn \<or> mx < x then True
       else list_all (\<lambda>(lo, hi, step, target). apart x y s lo hi step) (run_block i))
       run_bounds"

definition apart_special :: "nat \<Rightarrow> nat \<Rightarrow> nat \<Rightarrow> bool" where
  "apart_special x y s =
     list_all (\<lambda>(i, mn, mx).
       if y < mn \<or> mx < x then True
       else list_all (\<lambda>(k, ds). apart x y s k k 2) (special_block i))
       special_bounds"

definition apart_whitespace :: "nat \<Rightarrow> nat \<Rightarrow> bool" where
  "apart_whitespace x y = list_all (\<lambda>(lo, hi). y < lo \<or> hi < x) whitespace_ranges"

definition unchanged :: "nat \<Rightarrow> nat \<Rightarrow> nat \<Rightarrow> bool" where
  "unchanged x y s = (apart_runs x y s \<and> apart_special x y s \<and> apart_whitespace x y)"

section \<open>The loaded data\<close>

text \<open>
  A row of the data frame \<open>data\<close>: \<open>col\<close> is the value in the detected code column
  (\<open>Diagnosis\<close> or \<open>code\<close>), \<open>ICD_Category\<close> the column added when the files are loaded.
  Any further column of the uploaded file lives in the extension of the record. A data
  frame is the list of its rows in index order.
\<close>

record row =
  col :: string
  ICD_Category :: string

text \<open>
  Loading: the code column is converted with \<open>astype(str)\<close>, stripped and upper-cased,
  and \<open>ICD_Category\<close> is \<open>find_category\<close> applied to the result.
\<close>

definition load :: "pyval list \<Rightarrow> error + row list" where
  "load values =
     (case series_apply py_str values of
        Inl e \<Rightarrow> Inl e
      | Inr strs \<Rightarrow>
          (let codes = map (\<lambda>s. upper (strip s)) strs
           in case series_apply (\<lambda>c. find_category (PyStr c)) codes of
                Inl e \<Rightarrow> Inl e
              | Inr categories \<Rightarrow>
                  Inr (map (\<lambda>(c, k). \<lparr>col = c, ICD_Category = k\<rparr>) (zip codes categories))))"

section \<open>Summary\<close>

text \<open>
  \<open>Series.value_counts()\<close> of pandas counts the distinct values of a column and
  returns the counts in descending order. The counting is one pass over the column, a
  value seen for the first time being appended to the table of counts.
\<close>

fun bump :: "'k \<Rightarrow> ('k \<times> nat) list \<Rightarrow> ('k \<times> nat) list" where
  "bump k [] = [(k, 1)]"
| "bump k ((k', n) # table) = (if k = k' then (k', Suc n) # table else (k', n) # bump k table)"

definition tally :: "'k list \<Rightarrow> ('k \<times> nat) list" where
  "tally xs = fold bump xs []"

text \<open>
  The sort that follows is done by the library with its default algorithm, which need
  not keep entries of equal count in the order of the table, and \<open>app.py\<close> does nothing
  about that order. So \<open>value_counts xs result\<close> says that \<open>result\<close> is a value the call
  may return for the column \<open>xs\<close>: the entries of the table of counts, in an order in
  which the counts descend.
\<close>

definition value_counts :: "'k list \<Rightarrow> ('k \<times> nat) list \<Rightarrow> bool" where
  "value_counts xs result =
     (mset result = mset (tally xs) \<and> sorted_wrt (\<ge>) (map snd result))"

text \<open>\<open>summary = data["ICD_Category"].value_counts().reset_index()\<close>\<close>

definition summary :: "'a row_scheme list \<Rightarrow> (string \<times> nat) list \<Rightarrow> bool" where
  "summary data result = value_counts (map ICD_Category data) result"

section \<open>Range search and specific code search\<close>

text \<open>
  The rows selected by the boolean mask of the range search,
  \<open>data[(data[col] >= start.upper()) & (data[col] <= end.upper())]\<close>.
\<close>

definition filtered :: "'a row_scheme list \<Rightarrow> string \<Rightarrow> string \<Rightarrow> 'a row_scheme list" where
  "filtered data start end = filter (\<lambda>r. col r \<ge> upper start \<and> col r \<le> upper end) data"

text \<open>
  The rows shown by the specific code search: those selected by
  \<open>data[col].str.startswith(sc.upper())\<close>, with \<open>ICD_Category\<close> assigned again from
  \<open>find_category\<close>.
\<close>

definition filtered_sc :: "'a row_scheme list \<Rightarrow> string \<Rightarrow> error + 'a row_scheme list" where
  "filtered_sc data sc =
     (let selected = filter (\<lambda>r. startswith (col r) (upper sc)) data
      in case series_apply (\<lambda>r. find_category (PyStr (col r))) selected of
           Inl e \<Rightarrow> Inl e
         | Inr categories \<Rightarrow>
             Inr (map (\<lambda>(r, k). r\<lparr>ICD_Category := k\<rparr>) (zip selected categories)))"

subsection \<open>Data frames as objects\<close>

text \<open>
  Data frames are mutable objects. To state what the two searches leave untouched, the
  frames live in a heap, a list of frames addressed by position. Indexing a frame with
  a boolean mask and \<open>.copy()\<close> both create a new object; assigning a column changes
  the object it is applied to. An operation has no result when its address is outside
  the heap, when the values assigned to a column are not as many as the rows, or when
  a call made on the way raises an exception.
\<close>

type_synonym addr = nat
type_synonym 'a heap = "'a row_scheme list list"

definition lookup :: "'a heap \<Rightarrow> addr \<Rightarrow> 'a row_scheme list option" where
  "lookup h a = (if a < length h then Some (h ! a) else None)"

definition alloc :: "'a heap \<Rightarrow> 'a row_scheme list \<Rightarrow> addr \<times> 'a heap" where
  "alloc h rows = (length h, h @ [rows])"

definition getitem_mask ::
  "'a heap \<Rightarrow> addr \<Rightarrow> ('a row_scheme \<Rightarrow> bool) \<Rightarrow> (addr \<times> 'a heap) option" where
  "getitem_mask h a keep = do { rows \<leftarrow> lookup h a; Some (alloc h (filter keep rows)) }"

definition copy :: "'a heap \<Rightarrow> addr \<Rightarrow> (addr \<times> 'a heap) option" where
  "copy h a = do { rows \<leftarrow> lookup h a; Some (alloc h rows) }"

definition setitem_ICD_Category :: "'a heap \<Rightarrow> addr \<Rightarrow> string list \<Rightarrow> 'a heap option" where
  "setitem_ICD_Category h a categories =
     do {
       rows \<leftarrow> lookup h a;
       if length categories = length rows
       then Some (h[a := map (\<lambda>(r, k). r\<lparr>ICD_Category := k\<rparr>) (zip rows categories)])
       else None
     }"

text \<open>
  The button of the range search tab: \<open>filtered\<close> is a new frame. The result is its
  address and the heap after the run.
\<close>

definition range_search :: "'a heap \<Rightarrow> addr \<Rightarrow> string \<Rightarrow> string \<Rightarrow> (addr \<times> 'a heap) option" where
  "range_search h data start end =
     getitem_mask h data (\<lambda>r. col r \<ge> upper start \<and> col r \<le> upper end)"

text \<open>
  The button of the specific code search tab: the masked frame is copied, and the
  column is assigned on the copy.
\<close>

definition specific_code_search :: "'a heap \<Rightarrow> addr \<Rightarrow> string \<Rightarrow> (addr \<times> 'a heap) option" where
  "specific_code_search h data sc =
     do {
       (masked, h1) \<leftarrow> getitem_mask h data (\<lambda>r. startswith (col r) (upper sc));
       (fsc, h2) \<leftarrow> copy h1 masked;
       rows \<leftarrow> lookup h2 fsc;
       categories \<leftarrow>
         (case series_apply (\<lambda>r. find_category (PyStr (col r))) rows of
            Inl e \<Rightarrow> None
          | Inr categories \<Rightarrow> Some categories);
       h3 \<leftarrow> setitem_ICD_Category h2 fsc categories;
       Some (fsc, h3)
     }"

section \<open>Properties of the string operations\<close>

lemma startswith_Cons_head: "startswith s (p # ps) \<Longrightarrow> \<exists>t. s = p # t"
  by (cases s) auto

lemma startswith_take: "startswith s p = (take (length p) s = p)"
  by (induction s p rule: startswith.induct) auto

lemma range_head:
  fixes c :: "('a :: linorder) list"
  assumes "h # s \<le> c" "c \<le> h # e"
  shows "\<exists>t. c = h # t"
proof (cases c)
  case Nil
  with assms(1) show ?thesis by simp
next
  case (Cons x t)
  with assms have "h \<le> x" "x \<le> h" by auto
  then show ?thesis using Cons by simp
qed

lemma upper_char_idem: "upper_char (upper_char c) = upper_char c"
  by (cases c) (simp add: upper_char_def)

lemma isspace_upper_char: "isspace (upper_char c) = isspace c"
  by (cases c) (auto simp add: upper_char_def isspace_def)

lemma upper_idem: "upper (upper s) = upper s"
  by (simp add: upper_def upper_char_idem)

lemma strip_upper: "strip (upper s) = upper (strip s)"
  by (simp add: strip_def upper_def dropWhile_map rev_map comp_def isspace_upper_char)

lemma strip_no_lead: "dropWhile isspace (strip s) = strip s"
proof -
  define u where "u = dropWhile isspace s"
  define v where "v = dropWhile isspace (rev u)"
  have t: "strip s = rev v" by (simp add: strip_def u_def v_def)
  show ?thesis
  proof (cases "v = []")
    case True
    then show ?thesis using t by simp
  next
    case False
    obtain w where w: "rev u = w @ v" unfolding v_def
      by (metis takeWhile_dropWhile_id)
    then have u: "u = rev v @ rev w" by (metis rev_append rev_rev_ident)
    have "u \<noteq> []" using False v_def by auto
    then have "\<not> isspace (hd u)" unfolding u_def by (metis hd_dropWhile)
    moreover have "hd u = hd (rev v)" using u False by simp
    ultimately show ?thesis using t by (simp add: dropWhile_eq_self_iff)
  qed
qed

lemma strip_no_trail: "dropWhile isspace (rev (strip s)) = rev (strip s)"
  by (simp add: strip_def)

lemma strip_idem: "strip (strip s) = strip s"
  using strip_no_lead[of s] strip_no_trail[of s] by (simp add: strip_def[of "strip s"])

lemma normalize_idem: "upper (strip (upper (strip s))) = upper (strip s)"
  by (simp add: strip_upper strip_idem upper_idem)

section \<open>Properties of the category function\<close>

lemma entry_matches_head:
  assumes "headed e" "entry_matches e code"
  shows "\<exists>t. code = entry_head e # t"
proof -
  obtain category start "end" where e: "e = (category, start, end)" by (cases e) auto
  from assms(1) e obtain h s t where se: "start = h # s" "end = h # t"
    by (cases start; cases "end") (auto simp: headed_def)
  from assms(2) e consider "start \<le> code" "code \<le> end" | "startswith code (take 2 start)"
    by (auto simp: entry_matches_def)
  then show ?thesis
  proof cases
    case 1
    then show ?thesis using range_head[of h s code t] se e by (simp add: entry_head_def)
  next
    case 2
    then show ?thesis using startswith_Cons_head[of code h "take 1 s"] se e
      by (simp add: entry_head_def)
  qed
qed

text \<open>The loop returns the category of the first entry that matches.\<close>

lemma find_category_loop_find:
  "find_category_loop items code =
     (case find (\<lambda>e. entry_matches e code) items of None \<Rightarrow> ''Unknown'' | Some e \<Rightarrow> fst e)"
  by (induction items code rule: find_category_loop.induct) (auto simp: entry_matches_def)

lemma find_category_loop_no_match:
  "\<not> list_ex (\<lambda>e. entry_matches e code) items \<Longrightarrow> find_category_loop items code = ''Unknown''"
  by (induction items code rule: find_category_loop.induct) (auto simp: entry_matches_def)

lemma find_category_loop_label:
  "find_category_loop items code \<in> insert ''Unknown'' (fst ` set items)"
  by (induction items code rule: find_category_loop.induct) auto

text \<open>
  In a table of headed entries with pairwise different heads at most one entry matches
  a code, so the position of the entry does not matter.
\<close>

lemma find_category_loop_headed:
  assumes "list_all headed items" "distinct (map entry_head items)"
    "e \<in> set items" "entry_matches e code"
  shows "find_category_loop items code = fst e"
  using assms
proof (induction items)
  case Nil
  then show ?case by simp
next
  case (Cons x items)
  show ?case
  proof (cases "x = e")
    case True
    then show ?thesis using Cons.prems(4) by (simp add: find_category_loop_find)
  next
    case False
    with Cons.prems have mem: "e \<in> set items" by simp
    have hx: "headed x" and he: "headed e"
      using Cons.prems(1,3) mem by (auto simp: list_all_iff)
    have neq: "entry_head x \<noteq> entry_head e" using Cons.prems(2) mem by auto
    have "\<not> entry_matches x code"
    proof
      assume "entry_matches x code"
      from entry_matches_head[OF hx this] entry_matches_head[OF he Cons.prems(4)] neq
      show False by auto
    qed
    moreover have "find_category_loop items code = fst e"
      using Cons.IH Cons.prems mem by simp
    ultimately show ?thesis by (simp add: find_category_loop_find)
  qed
qed

lemma icd11_ranges_headed: "list_all headed icd11_ranges"
  by (simp add: icd11_ranges_def headed_def)

lemma icd11_ranges_heads_distinct: "distinct (map entry_head icd11_ranges)"
  by (simp add: icd11_ranges_def entry_head_def)

lemma icd11_ranges_start_length:
  "(category, start, end) \<in> set icd11_ranges \<Longrightarrow> length (take 2 start) = 2"
  by (auto simp: icd11_ranges_def)

lemma find_category_entry:
  assumes "(category, start, end) \<in> set icd11_ranges"
    "start \<le> code \<and> code \<le> end \<or> startswith code (take 2 start)"
  shows "find_category_loop icd11_ranges code = category"
  using find_category_loop_headed[OF icd11_ranges_headed icd11_ranges_heads_distinct assms(1)]
    assms(2) by (simp add: entry_matches_def)

lemmas eval_defs =
  find_category_def icd11_ranges_def upper_def strip_def isspace_def upper_char_def

text \<open>
  C1. Whenever the stripped, upper-cased code lies between the start and the end code
  of an entry of the chapter table, both ends included, \<open>find_category\<close> returns the
  category of that entry. In particular the two boundary codes \<open>1A00\<close> and \<open>1H0Z\<close> of
  the first chapter are classified into it.
\<close>

theorem find_category_in_range:
  "(\<forall>category start end c.
      (category, start, end) \<in> set icd11_ranges \<and>
      start \<le> upper (strip c) \<and> upper (strip c) \<le> end
      \<longrightarrow> find_category (PyStr c) = Inr category) \<and>
   find_category (PyStr ''1A00'') = Inr ''1. Certain infectious or parasitic diseases'' \<and>
   find_category (PyStr ''1H0Z'') = Inr ''1. Certain infectious or parasitic diseases''"
proof -
  have "find_category (PyStr c) = Inr category"
    if "(category, start, end) \<in> set icd11_ranges"
      "start \<le> upper (strip c)" "upper (strip c) \<le> end"
    for category start "end" c
    using find_category_entry[OF that(1), of "upper (strip c)"] that(2,3)
    by (simp add: find_category_def)
  moreover have
    "find_category (PyStr ''1A00'') = Inr ''1. Certain infectious or parasitic diseases''"
    by (simp add: eval_defs)
  moreover have
    "find_category (PyStr ''1H0Z'') = Inr ''1. Certain infectious or parasitic diseases''"
    by (simp add: eval_defs)
  ultimately show ?thesis by blast
qed

theorem find_category_in_range_witness:
  "(''2. Neoplasms'', ''2A00'', ''2F9Z'') \<in> set icd11_ranges \<and>
   ''2A00'' \<le> upper (strip '' 2f9z '') \<and> upper (strip '' 2f9z '') \<le> ''2F9Z'' \<and>
   find_category (PyStr '' 2f9z '') = Inr ''2. Neoplasms''"
proof -
  have h: "(''2. Neoplasms'', ''2A00'', ''2F9Z'') \<in> set icd11_ranges \<and>
      ''2A00'' \<le> upper (strip '' 2f9z '') \<and> upper (strip '' 2f9z '') \<le> ''2F9Z''"
    by (simp add: icd11_ranges_def upper_def strip_def isspace_def upper_char_def)
  from find_category_in_range have
    "find_category (PyStr '' 2f9z '') = Inr ''2. Neoplasms''"
    using h by blast
  with h show ?thesis by blast
qed

text \<open>
  C2. The loop visits the entries in the order of the table and applies both tests to
  an entry before it moves on, so on any table the result is the category of the first
  entry that passes the range test or the prefix test (with a table of two entries
  sharing a prefix, a code in the range of the second entry is given the category of the
  first). On the chapter table: a code whose normalized form is outside the range of
  an entry and agrees with the start code of that entry on the first two characters is
  given the category of that entry.
\<close>

theorem find_category_prefix_fallback:
  "(\<forall>items code.
      find_category_loop items code =
        (case find (\<lambda>(category, start, end).
                 start \<le> code \<and> code \<le> end \<or> startswith code (take 2 start)) items of
           None \<Rightarrow> ''Unknown''
         | Some (category, start, end) \<Rightarrow> category)) \<and>
   (\<forall>category start end c.
      (category, start, end) \<in> set icd11_ranges \<and>
      \<not> (start \<le> upper (strip c) \<and> upper (strip c) \<le> end) \<and>
      take 2 (upper (strip c)) = take 2 start
      \<longrightarrow> find_category (PyStr c) = Inr category) \<and>
   find_category_loop [(''A'', ''1A00'', ''1A10''), (''B'', ''1A20'', ''1A30'')] ''1A25'' = ''A''"
proof -
  have first: "find_category_loop items code =
        (case find (\<lambda>(category, start, end).
                 start \<le> code \<and> code \<le> end \<or> startswith code (take 2 start)) items of
           None \<Rightarrow> ''Unknown''
         | Some (category, start, end) \<Rightarrow> category)" for items code
    by (induction items code rule: find_category_loop.induct) auto
  have second: "find_category (PyStr c) = Inr category"
    if "(category, start, end) \<in> set icd11_ranges"
      "take 2 (upper (strip c)) = take 2 start"
    for category start "end" c
  proof -
    have "startswith (upper (strip c)) (take 2 start)"
      using that(2) icd11_ranges_start_length[OF that(1)] by (simp add: startswith_take)
    then show ?thesis
      using find_category_entry[OF that(1), of "upper (strip c)"]
      by (simp add: find_category_def)
  qed
  have third:
    "find_category_loop [(''A'', ''1A00'', ''1A10''), (''B'', ''1A20'', ''1A30'')] ''1A25'' = ''A''"
    by simp
  from first second third show ?thesis by blast
qed

theorem find_category_prefix_fallback_witness:
  "(''2. Neoplasms'', ''2A00'', ''2F9Z'') \<in> set icd11_ranges \<and>
   \<not> (''2A00'' \<le> upper (strip ''2a'') \<and> upper (strip ''2a'') \<le> ''2F9Z'') \<and>
   take 2 (upper (strip ''2a'')) = take 2 ''2A00'' \<and>
   find_category (PyStr ''2a'') = Inr ''2. Neoplasms''"
proof -
  have h: "(''2. Neoplasms'', ''2A00'', ''2F9Z'') \<in> set icd11_ranges \<and>
      \<not> (''2A00'' \<le> upper (strip ''2a'') \<and> upper (strip ''2a'') \<le> ''2F9Z'') \<and>
      take 2 (upper (strip ''2a'')) = take 2 ''2A00''"
    by (simp add: icd11_ranges_def upper_def strip_def isspace_def upper_char_def)
  from find_category_prefix_fallback have
    "find_category (PyStr ''2a'') = Inr ''2. Neoplasms''"
    using h by blast
  with h show ?thesis by blast
qed

text \<open>
  C3. On a string \<open>find_category\<close> raises nothing: its result is always the category
  of a table entry or \<open>Unknown\<close>. When no entry passes the range test or the prefix test on
  the normalized code, the result is \<open>Unknown\<close>; the empty string and \<open>ZZZZ\<close> are such
  codes.
\<close>

theorem find_category_unknown:
  "(\<forall>c. \<exists>category. find_category (PyStr c) = Inr category \<and>
          category \<in> insert ''Unknown'' (fst ` set icd11_ranges)) \<and>
   (\<forall>c. (\<forall>(category, start, end) \<in> set icd11_ranges.
            \<not> (start \<le> upper (strip c) \<and> upper (strip c) \<le> end) \<and>
            \<not> startswith (upper (strip c)) (take 2 start))
         \<longrightarrow> find_category (PyStr c) = Inr ''Unknown'') \<and>
   find_category (PyStr '''') = Inr ''Unknown'' \<and>
   find_category (PyStr ''ZZZZ'') = Inr ''Unknown''"
proof -
  have first: "\<exists>category. find_category (PyStr c) = Inr category \<and>
      category \<in> insert ''Unknown'' (fst ` set icd11_ranges)" for c
    using find_category_loop_label[of icd11_ranges "upper (strip c)"]
    by (simp add: find_category_def)
  have second: "find_category (PyStr c) = Inr ''Unknown''"
    if "\<forall>(category, start, end) \<in> set icd11_ranges.
            \<not> (start \<le> upper (strip c) \<and> upper (strip c) \<le> end) \<and>
            \<not> startswith (upper (strip c)) (take 2 start)"
    for c
  proof -
    have "\<not> list_ex (\<lambda>e. entry_matches e (upper (strip c))) icd11_ranges"
      using that by (auto simp: list_ex_iff entry_matches_def)
    then show ?thesis
      by (simp add: find_category_def find_category_loop_no_match)
  qed
  have third: "find_category (PyStr '''') = Inr ''Unknown''"
    by (simp add: eval_defs)
  have fourth: "find_category (PyStr ''ZZZZ'') = Inr ''Unknown''"
    by (simp add: eval_defs)
  from first second third fourth show ?thesis by blast
qed

theorem find_category_unknown_witness:
  "list_all (\<lambda>(category, start, end).
      \<not> (start \<le> upper (strip '' 1h1 '') \<and> upper (strip '' 1h1 '') \<le> end) \<and>
      \<not> startswith (upper (strip '' 1h1 '')) (take 2 start)) icd11_ranges \<and>
   find_category (PyStr '' 1h1 '') = Inr ''Unknown''"
proof -
  have h: "list_all (\<lambda>(category, start, end).
      \<not> (start \<le> upper (strip '' 1h1 '') \<and> upper (strip '' 1h1 '') \<le> end) \<and>
      \<not> startswith (upper (strip '' 1h1 '')) (take 2 start)) icd11_ranges"
    by (simp add: icd11_ranges_def upper_def strip_def isspace_def upper_char_def)
  from find_category_unknown have "find_category (PyStr '' 1h1 '') = Inr ''Unknown''"
    using h unfolding list_all_iff by blast
  with h show ?thesis by blast
qed

section \<open>Properties of the Unicode string operations\<close>

text \<open>
  Facts read off the tables: the bounds of the blocks are right, the upper case of every
  member of a run is unchanged by \<open>to_upper\<close> and is no whitespace, and so is every code
  point of an upper case of the second table.
\<close>

lemmas block_defs =
  upper_runs_0_def upper_runs_1_def upper_runs_2_def upper_runs_3_def upper_runs_4_def
  upper_runs_5_def upper_runs_6_def upper_runs_7_def upper_runs_8_def upper_runs_9_def
  upper_runs_10_def upper_runs_11_def upper_runs_12_def
  upper_special_0_def upper_special_1_def upper_special_2_def upper_special_3_def
  upper_special_4_def upper_special_5_def upper_special_6_def

lemma bounds_runs:
  "list_all (\<lambda>(i, mn, mx). list_all (\<lambda>(lo, hi, step, target). mn \<le> lo \<and> hi \<le> mx) (run_block i))
     run_bounds"
  by (simp add: run_bounds_def run_block_def block_defs)

lemma bounds_special:
  "list_all (\<lambda>(i, mn, mx). list_all (\<lambda>(k, ds). mn \<le> k \<and> k \<le> mx) (special_block i))
     special_bounds"
  by (simp add: special_bounds_def special_block_def block_defs)

lemma runs_unchanged:
  "list_all (\<lambda>(i, mn, mx).
     list_all (\<lambda>(lo, hi, step, target). unchanged target (target + (hi - lo)) step) (run_block i))
     run_bounds"
  by (simp add: unchanged_def apart_runs_def apart_special_def apart_whitespace_def apart_def
      run_bounds_def special_bounds_def whitespace_ranges_def run_block_def special_block_def
      block_defs)

lemma special_unchanged:
  "list_all (\<lambda>(i, mn, mx).
     list_all (\<lambda>(k, ds). ds \<noteq> [] \<and> list_all (\<lambda>d. unchanged d d 2) ds) (special_block i))
     special_bounds"
  by (simp add: unchanged_def apart_runs_def apart_special_def apart_whitespace_def apart_def
      run_bounds_def special_bounds_def whitespace_ranges_def run_block_def special_block_def
      block_defs)

text \<open>What the tests mean.\<close>

lemma apart_sound:
  assumes "apart x y s lo hi step" "x \<le> p" "p \<le> y" "(p - x) mod s = 0"
  shows "\<not> (lo \<le> p \<and> p \<le> hi \<and> (p - lo) mod step = 0)"
proof
  assume a: "lo \<le> p \<and> p \<le> hi \<and> (p - lo) mod step = 0"
  from assms(1) consider "y < lo" | "hi < x" | "s = 2" "step = 2" "x mod 2 \<noteq> lo mod 2"
    by (auto simp: apart_def)
  then show False
  proof cases
    case 1 with a assms show ?thesis by simp
  next
    case 2 with a assms show ?thesis by simp
  next
    case 3
    with a assms(2,4) show ?thesis by presburger
  qed
qed

lemma in_upper_runs:
  "r \<in> set upper_runs \<Longrightarrow> \<exists>i mn mx. (i, mn, mx) \<in> set run_bounds \<and> r \<in> set (run_block i)"
  by (auto simp: upper_runs_def)

lemma in_upper_special:
  "e \<in> set upper_special \<Longrightarrow>
   \<exists>i mn mx. (i, mn, mx) \<in> set special_bounds \<and> e \<in> set (special_block i)"
  by (auto simp: upper_special_def)

lemma apart_runs_sound:
  assumes "apart_runs x y s" "r \<in> set upper_runs" "x \<le> p" "p \<le> y" "(p - x) mod s = 0"
  shows "\<not> in_run r p"
proof -
  obtain lo hi step target where r: "r = (lo, hi, step, target)" by (cases r) auto
  from in_upper_runs[OF assms(2)] obtain i mn mx
    where b: "(i, mn, mx) \<in> set run_bounds" "r \<in> set (run_block i)" by blast
  from bounds_runs b r have within: "mn \<le> lo" "hi \<le> mx"
    by (auto simp: list_all_iff)
  from assms(1) b(1) have
    "y < mn \<or> mx < x \<or>
     list_all (\<lambda>(lo, hi, step, target). apart x y s lo hi step) (run_block i)"
    by (auto simp: apart_runs_def list_all_iff split: if_splits)
  then consider "y < mn" | "mx < x" | "apart x y s lo hi step"
    using b(2) r by (auto simp: list_all_iff)
  then show ?thesis
  proof cases
    case 1 with within assms show ?thesis by (simp add: in_run_def r)
  next
    case 2 with within assms show ?thesis by (simp add: in_run_def r)
  next
    case 3
    from apart_sound[OF 3 assms(3,4,5)] show ?thesis by (simp add: in_run_def r)
  qed
qed

lemma apart_special_sound:
  assumes "apart_special x y s" "(k, ds) \<in> set upper_special" "x \<le> p" "p \<le> y"
    "(p - x) mod s = 0"
  shows "p \<noteq> k"
proof -
  from in_upper_special[OF assms(2)] obtain i mn mx
    where b: "(i, mn, mx) \<in> set special_bounds" "(k, ds) \<in> set (special_block i)" by blast
  from bounds_special b have within: "mn \<le> k" "k \<le> mx"
    by (auto simp: list_all_iff)
  from assms(1) b(1) have
    "y < mn \<or> mx < x \<or> list_all (\<lambda>(k, ds). apart x y s k k 2) (special_block i)"
    by (auto simp: apart_special_def list_all_iff split: if_splits)
  then consider "y < mn" | "mx < x" | "apart x y s k k 2"
    using b(2) by (auto simp: list_all_iff)
  then show ?thesis
  proof cases
    case 1 with within assms show ?thesis by simp
  next
    case 2 with within assms show ?thesis by simp
  next
    case 3
    from apart_sound[OF 3 assms(3,4,5)] show ?thesis by auto
  qed
qed

lemma apart_whitespace_sound:
  assumes "apart_whitespace x y" "x \<le> p" "p \<le> y"
  shows "\<not> is_whitespace p"
  using assms
  by (fastforce simp: apart_whitespace_def is_whitespace_def list_all_iff list_ex_iff)

lemma unchanged_sound:
  assumes "unchanged x y s" "x \<le> p" "p \<le> y" "(p - x) mod s = 0"
  shows "to_upper p = [p] \<and> \<not> is_whitespace p"
proof -
  from assms have ar: "apart_runs x y s" and asp: "apart_special x y s"
    and aw: "apart_whitespace x y" by (simp_all add: unchanged_def)
  have "map_of upper_special p = None"
  proof (rule ccontr)
    assume "map_of upper_special p \<noteq> None"
    then obtain ds where "map_of upper_special p = Some ds" by auto
    then have "(p, ds) \<in> set upper_special" by (rule map_of_SomeD)
    from apart_special_sound[OF asp this assms(2,3,4)] show False by simp
  qed
  moreover have "find (\<lambda>r. in_run r p) upper_runs = None"
    using apart_runs_sound[OF ar _ assms(2,3,4)] by (auto simp: find_None_iff)
  ultimately show ?thesis
    using apart_whitespace_sound[OF aw assms(2,3)] by (simp add: to_upper_def)
qed

lemma to_upper_cases:
  "to_upper c = [c] \<or>
   (to_upper c \<noteq> [] \<and> (\<forall>d \<in> set (to_upper c). to_upper d = [d] \<and> \<not> is_whitespace d))"
proof (cases "map_of upper_special c")
  case (Some ds)
  then have mem: "(c, ds) \<in> set upper_special" by (rule map_of_SomeD)
  from in_upper_special[OF mem] obtain i mn mx
    where b: "(i, mn, mx) \<in> set special_bounds" "(c, ds) \<in> set (special_block i)" by blast
  with special_unchanged have "ds \<noteq> [] \<and> (\<forall>d \<in> set ds. unchanged d d 2)"
    unfolding list_all_iff by fastforce
  then have "ds \<noteq> []" and u: "\<forall>d \<in> set ds. unchanged d d 2" by simp_all
  moreover have "to_upper d = [d] \<and> \<not> is_whitespace d" if "d \<in> set ds" for d
    using unchanged_sound[of d d 2 d] u that by simp
  ultimately show ?thesis using Some by (simp add: to_upper_def)
next
  case None
  show ?thesis
  proof (cases "find (\<lambda>r. in_run r c) upper_runs")
    case n: None
    with None show ?thesis by (simp add: to_upper_def)
  next
    case (Some r)
    obtain lo hi step target where r: "r = (lo, hi, step, target)" by (cases r) auto
    from Some have mem: "r \<in> set upper_runs" and inr: "in_run r c"
      by (auto simp: find_Some_iff in_set_conv_nth)
    from in_upper_runs[OF mem] obtain i mn mx
      where b: "(i, mn, mx) \<in> set run_bounds" "r \<in> set (run_block i)" by blast
    with runs_unchanged r have u: "unchanged target (target + (hi - lo)) step"
      by (auto simp: list_all_iff)
    from inr r have c: "lo \<le> c" "c \<le> hi" "(c - lo) mod step = 0"
      by (simp_all add: in_run_def)
    have "to_upper (target + (c - lo)) = [target + (c - lo)] \<and>
        \<not> is_whitespace (target + (c - lo))"
      using c by (intro unchanged_sound[OF u]) simp_all
    then show ?thesis using None Some r by (simp add: to_upper_def)
  qed
qed

lemma to_upper_nonempty: "to_upper c \<noteq> []"
  using to_upper_cases[of c] by auto

lemma to_upper_keeps_nonspace:
  "\<not> is_whitespace c \<Longrightarrow> d \<in> set (to_upper c) \<Longrightarrow> \<not> is_whitespace d"
  using to_upper_cases[of c] by auto

lemma concat_fixed: "\<forall>d \<in> set ds. f d = [d] \<Longrightarrow> concat (map f ds) = ds"
  by (induction ds) auto

lemma to_upper_idem: "concat (map to_upper (to_upper c)) = to_upper c"
  using to_upper_cases[of c] by (auto simp: concat_fixed)

lemma unicode_upper_idem: "unicode_upper (unicode_upper s) = unicode_upper s"
  by (induction s) (simp_all add: unicode_upper_def to_upper_idem)

lemma unicode_strip_ends:
  assumes "s = [] \<or> (\<not> is_whitespace (hd s) \<and> \<not> is_whitespace (last s))"
  shows "unicode_strip s = s"
proof (cases "s = []")
  case True
  then show ?thesis by (simp add: unicode_strip_def)
next
  case False
  with assms have h: "\<not> is_whitespace (hd s)" and l: "\<not> is_whitespace (last s)" by auto
  from h False have 1: "dropWhile is_whitespace s = s"
    by (simp add: dropWhile_eq_self_iff)
  from l False have 2: "dropWhile is_whitespace (rev s) = rev s"
    by (simp add: dropWhile_eq_self_iff hd_rev)
  show ?thesis by (simp add: unicode_strip_def 1 2)
qed

lemma unicode_strip_result:
  "unicode_strip s = [] \<or>
   (\<not> is_whitespace (hd (unicode_strip s)) \<and> \<not> is_whitespace (last (unicode_strip s)))"
proof -
  define u where "u = dropWhile is_whitespace s"
  define v where "v = dropWhile is_whitespace (rev u)"
  have t: "unicode_strip s = rev v" by (simp add: unicode_strip_def u_def v_def)
  show ?thesis
  proof (cases "v = []")
    case True
    then show ?thesis using t by simp
  next
    case False
    then have hv: "\<not> is_whitespace (hd v)" unfolding v_def by (metis hd_dropWhile)
    obtain w where w: "rev u = w @ v" unfolding v_def by (metis takeWhile_dropWhile_id)
    then have u: "u = rev v @ rev w" by (metis rev_append rev_rev_ident)
    have "u \<noteq> []" using False v_def by auto
    then have "\<not> is_whitespace (hd u)" unfolding u_def by (metis hd_dropWhile)
    moreover have "hd u = hd (rev v)" using u False by simp
    ultimately show ?thesis using t hv False by (simp add: last_rev)
  qed
qed

lemma unicode_upper_ends:
  assumes "s \<noteq> []" "\<not> is_whitespace (hd s)" "\<not> is_whitespace (last s)"
  shows "unicode_upper s \<noteq> [] \<and> \<not> is_whitespace (hd (unicode_upper s)) \<and>
     \<not> is_whitespace (last (unicode_upper s))"
proof -
  obtain x xs where s: "s = x # xs" using assms(1) by (cases s) auto
  obtain ys y where s': "s = ys @ [y]" using assms(1) by (cases s rule: rev_cases) auto
  have ne: "unicode_upper s \<noteq> []"
    using s to_upper_nonempty[of x] by (simp add: unicode_upper_def)
  have "hd (unicode_upper s) = hd (to_upper x)"
    using s to_upper_nonempty[of x] by (simp add: unicode_upper_def)
  moreover have "hd (to_upper x) \<in> set (to_upper x)"
    using to_upper_nonempty[of x] by simp
  ultimately have h: "\<not> is_whitespace (hd (unicode_upper s))"
    using to_upper_keeps_nonspace[of x] assms(2) s by simp
  have "last (unicode_upper s) = last (to_upper y)"
    using s' to_upper_nonempty[of y] by (simp add: unicode_upper_def)
  moreover have "last (to_upper y) \<in> set (to_upper y)"
    using to_upper_nonempty[of y] by simp
  ultimately have l: "\<not> is_whitespace (last (unicode_upper s))"
    using to_upper_keeps_nonspace[of y] assms(3) s' by simp
  from ne h l show ?thesis by simp
qed

lemma unicode_normalize_idem:
  "unicode_upper (unicode_strip (unicode_upper (unicode_strip s)))
     = unicode_upper (unicode_strip s)"
proof -
  let ?t = "unicode_strip s"
  have "unicode_strip (unicode_upper ?t) = unicode_upper ?t"
  proof (cases "?t = []")
    case True
    then show ?thesis by (intro unicode_strip_ends) (simp add: unicode_upper_def)
  next
    case False
    with unicode_strip_result[of s] unicode_upper_ends[of ?t]
    show ?thesis by (intro unicode_strip_ends) simp
  qed
  then show ?thesis by (simp add: unicode_upper_idem)
qed

subsection \<open>ASCII text\<close>

text \<open>
  On ASCII text the operations of this section are those of the first section, read on
  code points, and \<open>find_category_unicode\<close> is \<open>find_category\<close>.
\<close>

lemma upper_runs_head: "\<exists>rest. upper_runs = (97, 122, 1, 65) # rest"
  by (simp add: upper_runs_def run_bounds_def run_block_def upper_runs_0_def)

lemma ascii_special: "apart_special 97 122 1"
  by (simp add: apart_special_def special_bounds_def)

lemma apart_to_upper:
  assumes "apart_runs x y s" "apart_special x y s" "x \<le> p" "p \<le> y" "(p - x) mod s = 0"
  shows "to_upper p = [p]"
proof -
  have "map_of upper_special p = None"
  proof (rule ccontr)
    assume "map_of upper_special p \<noteq> None"
    then obtain ds where "map_of upper_special p = Some ds" by auto
    then have "(p, ds) \<in> set upper_special" by (rule map_of_SomeD)
    from apart_special_sound[OF assms(2) this assms(3,4,5)] show False by simp
  qed
  moreover have "find (\<lambda>r. in_run r p) upper_runs = None"
    using apart_runs_sound[OF assms(1) _ assms(3,4,5)] by (auto simp: find_None_iff)
  ultimately show ?thesis by (simp add: to_upper_def)
qed

lemma ascii_apart:
  "apart_runs 0 96 1 \<and> apart_special 0 96 1 \<and> apart_runs 123 127 1 \<and> apart_special 123 127 1"
  by (simp add: apart_runs_def apart_special_def apart_def
      run_bounds_def special_bounds_def run_block_def upper_runs_0_def)

lemma to_upper_ascii:
  assumes "c < 128"
  shows "to_upper c = [if 97 \<le> c \<and> c \<le> 122 then c - 32 else c]"
proof (cases "97 \<le> c \<and> c \<le> 122")
  case True
  have "map_of upper_special c = None"
  proof (rule ccontr)
    assume "map_of upper_special c \<noteq> None"
    then obtain ds where "map_of upper_special c = Some ds" by auto
    then have "(c, ds) \<in> set upper_special" by (rule map_of_SomeD)
    from apart_special_sound[OF ascii_special this, of c] True show False by simp
  qed
  moreover have "find (\<lambda>r. in_run r c) upper_runs = Some (97, 122, 1, 65)"
  proof -
    from upper_runs_head obtain rest where ur: "upper_runs = (97, 122, 1, 65) # rest" ..
    show ?thesis unfolding ur using True by (simp add: in_run_def)
  qed
  ultimately show ?thesis using True by (simp add: to_upper_def)
next
  case False
  with assms consider "c \<le> 96" | "123 \<le> c" "c \<le> 127" by linarith
  then have "to_upper c = [c]"
  proof cases
    case 1
    with apart_to_upper[of 0 96 1 c] ascii_apart show ?thesis by simp
  next
    case 2
    with apart_to_upper[of 123 127 1 c] ascii_apart show ?thesis by simp
  qed
  then show ?thesis using False by auto
qed

lemma isspace_nat: "isspace ch = (9 \<le> (of_char ch :: nat) \<and> (of_char ch :: nat) \<le> 13 \<or>
    28 \<le> (of_char ch :: nat) \<and> (of_char ch :: nat) \<le> 32)"
  by (simp add: isspace_def less_eq_char_def)

lemma is_whitespace_ascii: "c < 128 \<Longrightarrow> is_whitespace c = (9 \<le> c \<and> c \<le> 13 \<or> 28 \<le> c \<and> c \<le> 32)"
  by (auto simp: is_whitespace_def whitespace_ranges_def)

lemma is_whitespace_of_char:
  "(of_char ch :: nat) < 128 \<Longrightarrow> is_whitespace (of_char ch) = isspace ch"
  by (simp add: is_whitespace_ascii isspace_nat)

lemma of_char_upper_char:
  "(of_char (upper_char ch) :: nat)
     = (if 97 \<le> (of_char ch :: nat) \<and> (of_char ch :: nat) \<le> 122 then of_char ch - 32 else of_char ch)"
  by (cases ch) (auto simp: upper_char_def less_eq_char_def)

lemma to_upper_of_char:
  "(of_char ch :: nat) < 128 \<Longrightarrow> to_upper (of_char ch) = [of_char (upper_char ch)]"
  by (simp add: to_upper_ascii of_char_upper_char)

lemma codepoints_le: "codepoints a \<le> codepoints b \<longleftrightarrow> a \<le> b"
proof (induction a arbitrary: b)
  case Nil
  then show ?case by (simp add: codepoints_def)
next
  case (Cons x a)
  then show ?case
    by (cases b) (auto simp: codepoints_def less_char_def)
qed

lemma startswith_codepoints: "startswith (codepoints a) (codepoints p) = startswith a p"
  by (induction a p rule: startswith.induct) (auto simp: codepoints_def)

lemma find_category_loop_codepoints:
  "find_category_loop
     (map (\<lambda>(category, start, end). (category, codepoints start, codepoints end)) items)
     (codepoints code)
   = find_category_loop items code"
proof (induction items)
  case Nil
  then show ?case by simp
next
  case (Cons e items)
  obtain category start "end" where e: "e = (category, start, end)" by (cases e) auto
  have t: "take 2 (codepoints start) = codepoints (take 2 start)"
    by (simp add: codepoints_def take_map)
  show ?case using Cons
    by (simp add: e codepoints_le t startswith_codepoints)
qed

lemma unicode_strip_codepoints:
  assumes "\<forall>ch \<in> set s. (of_char ch :: nat) < 128"
  shows "unicode_strip (codepoints s) = codepoints (strip s)"
proof -
  have 1: "dropWhile is_whitespace (map of_char s) = map of_char (dropWhile isspace s)"
    unfolding dropWhile_map
    by (rule arg_cong[where f="map of_char"], rule dropWhile_cong)
       (use assms in \<open>auto simp: is_whitespace_of_char\<close>)
  have a2: "\<forall>ch \<in> set (rev (dropWhile isspace s)). (of_char ch :: nat) < 128"
    using assms by (auto dest: set_dropWhileD)
  have 2: "dropWhile is_whitespace (map of_char (rev (dropWhile isspace s)))
      = map of_char (dropWhile isspace (rev (dropWhile isspace s)))"
    unfolding dropWhile_map
    by (rule arg_cong[where f="map of_char"], rule dropWhile_cong)
       (use a2 in \<open>auto simp: is_whitespace_of_char\<close>)
  show ?thesis
    by (simp add: unicode_strip_def strip_def codepoints_def 1 2 rev_map)
qed

lemma unicode_upper_codepoints:
  assumes "\<forall>ch \<in> set s. (of_char ch :: nat) < 128"
  shows "unicode_upper (codepoints s) = codepoints (upper s)"
  using assms
  by (induction s) (simp_all add: unicode_upper_def codepoints_def upper_def to_upper_of_char)

lemma strip_subset: "set (strip s) \<subseteq> set s"
proof
  fix x assume "x \<in> set (strip s)"
  then have "x \<in> set (dropWhile isspace (rev (dropWhile isspace s)))"
    by (simp add: strip_def)
  then have "x \<in> set (rev (dropWhile isspace s))" by (rule set_dropWhileD)
  then have "x \<in> set (dropWhile isspace s)" by simp
  then show "x \<in> set s" by (rule set_dropWhileD)
qed

lemma find_category_unicode_ascii:
  assumes "\<forall>ch \<in> set s. (of_char ch :: nat) < 128"
  shows "find_category (PyStr s) = Inr (find_category_unicode (codepoints s))"
proof -
  have "\<forall>ch \<in> set (strip s). (of_char ch :: nat) < 128"
    using assms strip_subset by blast
  then have "unicode_upper (unicode_strip (codepoints s)) = codepoints (upper (strip s))"
    by (simp add: unicode_strip_codepoints[OF assms] unicode_upper_codepoints)
  then show ?thesis
    by (simp add: find_category_def find_category_unicode_def unicode_ranges_def
        find_category_loop_codepoints)
qed

text \<open>
  C8. \<open>find_category\<close> gives a string and its stripped, upper-cased form the same
  category, whatever the string: surrounding whitespace and the case of the letters
  do not matter. This is stated on strings as lists of code points, with \<open>strip\<close> and
  \<open>upper\<close> as Python has them on all of Unicode. For instance \<open>" 2a20 "\<close> and \<open>"2A20"\<close>
  are classified alike, and so is \<open>2a20\<close> between a no-break space (160) and an
  en space (8195). On ASCII text the same holds of \<open>find_category\<close> as modelled on
  characters, which agrees with the function on code points.
\<close>

theorem find_category_normalized:
  "find_category_unicode c = find_category_unicode (unicode_upper (unicode_strip c)) \<and>
   find_category_unicode (codepoints '' 2a20 '') = find_category_unicode (codepoints ''2A20'') \<and>
   find_category_unicode (160 # codepoints ''2a20'' @ [8195])
     = find_category_unicode (codepoints ''2A20'') \<and>
   ((\<forall>ch \<in> set s. (of_char ch :: nat) < 128) \<longrightarrow>
      find_category (PyStr s) = Inr (find_category_unicode (codepoints s)) \<and>
      find_category (PyStr s) = find_category (PyStr (upper (strip s)))) \<and>
   find_category (PyStr '' 2a20 '') = find_category (PyStr ''2A20'')"
proof -
  have general:
    "find_category_unicode c = find_category_unicode (unicode_upper (unicode_strip c))"
    by (simp add: find_category_unicode_def unicode_normalize_idem)
  have a: "find_category_unicode (codepoints '' 2a20 '') = ''2. Neoplasms''"
    by (simp add: find_category_unicode_def unicode_upper_def unicode_strip_def codepoints_def
        to_upper_ascii is_whitespace_def whitespace_ranges_def unicode_ranges_def
        icd11_ranges_def)
  have b: "find_category_unicode (codepoints ''2A20'') = ''2. Neoplasms''"
    by (simp add: find_category_unicode_def unicode_upper_def unicode_strip_def codepoints_def
        to_upper_ascii is_whitespace_def whitespace_ranges_def unicode_ranges_def
        icd11_ranges_def)
  have c: "find_category_unicode (160 # codepoints ''2a20'' @ [8195]) = ''2. Neoplasms''"
    by (simp add: find_category_unicode_def unicode_upper_def unicode_strip_def codepoints_def
        to_upper_ascii is_whitespace_def whitespace_ranges_def unicode_ranges_def
        icd11_ranges_def)
  have ascii: "find_category (PyStr s) = Inr (find_category_unicode (codepoints s)) \<and>
      find_category (PyStr s) = find_category (PyStr (upper (strip s)))"
    if "\<forall>ch \<in> set s. (of_char ch :: nat) < 128"
    using find_category_unicode_ascii[OF that]
    by (simp add: find_category_def normalize_idem)
  have d: "find_category (PyStr '' 2a20 '') = find_category (PyStr ''2A20'')"
    by (simp add: eval_defs)
  from a b have ab:
    "find_category_unicode (codepoints '' 2a20 '') = find_category_unicode (codepoints ''2A20'')"
    by simp
  from c b have cb: "find_category_unicode (160 # codepoints ''2a20'' @ [8195])
      = find_category_unicode (codepoints ''2A20'')"
    by simp
  from general ab cb ascii d show ?thesis by blast
qed

theorem find_category_normalized_witness:
  "list_all (\<lambda>ch. (of_char ch :: nat) < 128) '' 2a20 '' \<and>
   find_category (PyStr '' 2a20 '') = Inr (find_category_unicode (codepoints '' 2a20 '')) \<and>
   find_category (PyStr '' 2a20 '') = find_category (PyStr (upper (strip '' 2a20 '')))"
proof -
  have h: "list_all (\<lambda>ch. (of_char ch :: nat) < 128) '' 2a20 ''" by simp
  from find_category_normalized[of "[]" "'' 2a20 ''"] h
  show ?thesis unfolding list_all_iff by blast
qed

subsection \<open>Arguments that are not strings\<close>















section \<open>Properties of the searches\<close>

text \<open>On a column of strings \<open>find_category\<close> raises nothing, so applying it succeeds.\<close>

lemma series_apply_find_category:
  "series_apply (\<lambda>r. find_category (PyStr (g r))) rows
     = Inr (map (\<lambda>r. find_category_loop icd11_ranges (upper (strip (g r)))) rows)"
  by (induction rows) (simp_all add: find_category_def)

lemma series_apply_py_str:
  "series_apply py_str (map PyStr strs) = Inr strs"
  by (induction strs) simp_all

lemma zip_assign:
  "map (\<lambda>(r, k). r\<lparr>ICD_Category := k\<rparr>) (zip rows (map f rows))
     = map (\<lambda>r. r\<lparr>ICD_Category := f r\<rparr>) rows"
  by (induction rows) simp_all

lemma filtered_sc_eq:
  "filtered_sc data sc =
     Inr (map (\<lambda>r. r\<lparr>ICD_Category := find_category_loop icd11_ranges (upper (strip (col r)))\<rparr>)
            (filter (\<lambda>r. startswith (col r) (upper sc)) data))"
  by (simp add: filtered_sc_def series_apply_find_category zip_assign)

lemma filtered_empty_range:
  "upper start > upper end \<Longrightarrow> filtered data start end = []"
  by (auto simp: filtered_def filter_empty_conv)

text \<open>
  C5. The range search upper-cases both bounds and keeps exactly the rows whose code
  column lies between them in the lexicographic order, both ends included, each as
  often and in the order it occurs in the data. The \<open>ICD_Category\<close> column plays no
  part: changing it in the data changes the selected rows in the same way and selects
  no other rows, and a row whose category is \<open>Unknown\<close> is returned when its code is
  within the bounds.
\<close>

theorem filtered_range:
  "filtered data start end
     = filter (\<lambda>r. upper start \<le> col r \<and> col r \<le> upper end) data \<and>
   set (filtered data start end)
     = {r \<in> set data. upper start \<le> col r \<and> col r \<le> upper end} \<and>
   filtered (map (\<lambda>r. r\<lparr>ICD_Category := f r\<rparr>) data) start end
     = map (\<lambda>r. r\<lparr>ICD_Category := f r\<rparr>) (filtered data start end) \<and>
   filtered [\<lparr>col = ''ZZZZ'', ICD_Category = ''Unknown''\<rparr>,
             \<lparr>col = ''1A00'', ICD_Category = ''1. Certain infectious or parasitic diseases''\<rparr>]
       ''zz'' ''zzzzz''
     = [\<lparr>col = ''ZZZZ'', ICD_Category = ''Unknown''\<rparr>]"
proof -
  have "filtered (map (\<lambda>r. r\<lparr>ICD_Category := f r\<rparr>) data) start end
     = map (\<lambda>r. r\<lparr>ICD_Category := f r\<rparr>) (filtered data start end)"
    by (simp add: filtered_def filter_map comp_def)
  moreover have
    "filtered [\<lparr>col = ''ZZZZ'', ICD_Category = ''Unknown''\<rparr>,
             \<lparr>col = ''1A00'', ICD_Category = ''1. Certain infectious or parasitic diseases''\<rparr>]
       ''zz'' ''zzzzz''
     = [\<lparr>col = ''ZZZZ'', ICD_Category = ''Unknown''\<rparr>]"
    by (simp add: filtered_def upper_def upper_char_def)
  ultimately show ?thesis by (simp add: filtered_def)
qed

text \<open>
  C6. When the upper-cased start bound is greater than the upper-cased end bound, the
  range search returns no row, whatever the data: the bounds are not swapped and
  nothing fails. The bounds \<open>2F00\<close> and \<open>2A00\<close> are an instance.
\<close>

theorem filtered_reversed_bounds:
  "(upper start > upper end \<longrightarrow> filtered data start end = []) \<and>
   filtered data ''2F00'' ''2A00'' = []"
proof -
  have "upper ''2F00'' > upper ''2A00''"
    by (simp add: upper_def upper_char_def)
  then have "filtered data ''2F00'' ''2A00'' = []"
    by (rule filtered_empty_range)
  then show ?thesis using filtered_empty_range[of "end" start data] by blast
qed

theorem filtered_reversed_bounds_witness:
  "upper ''2f9z'' > upper ''2a00'' \<and>
   filtered [\<lparr>col = ''2A20'', ICD_Category = ''2. Neoplasms''\<rparr>,
             \<lparr>col = ''2F9Z'', ICD_Category = ''2. Neoplasms''\<rparr>] ''2f9z'' ''2a00'' = []"
proof -
  have h: "upper ''2f9z'' > upper ''2a00''"
    by (simp add: upper_def upper_char_def)
  from filtered_reversed_bounds[of "''2a00''" "''2f9z''"
      "[\<lparr>col = ''2A20'', ICD_Category = ''2. Neoplasms''\<rparr>,
        \<lparr>col = ''2F9Z'', ICD_Category = ''2. Neoplasms''\<rparr>]"] h
  show ?thesis by blast
qed

text \<open>
  C7. The specific code search raises nothing. It upper-cases the prefix and returns
  the rows whose code column starts with it, in the order of the data and with their
  other columns unchanged; the empty prefix selects every row. In every returned row
  \<open>ICD_Category\<close> is \<open>find_category\<close> of the row's code, computed by the search, whatever
  the data held in that column: a row with code \<open>2A20\<close> and an outdated category comes
  back with \<open>2. Neoplasms\<close>.
\<close>

theorem filtered_sc_prefix:
  "(\<exists>result. filtered_sc data sc = Inr result \<and>
      map col result = filter (\<lambda>c. startswith c (upper sc)) (map col data) \<and>
      map row.more result
        = map row.more (filter (\<lambda>r. startswith (col r) (upper sc)) data) \<and>
      map (\<lambda>r. find_category (PyStr (col r))) result
        = map (\<lambda>r. Inr (ICD_Category r)) result) \<and>
   (\<exists>result. filtered_sc data [] = Inr result \<and> map col result = map col data) \<and>
   filtered_sc [\<lparr>col = ''2A20'', ICD_Category = ''outdated''\<rparr>,
                \<lparr>col = ''1A00'', ICD_Category = ''outdated''\<rparr>] ''2a''
     = Inr [\<lparr>col = ''2A20'', ICD_Category = ''2. Neoplasms''\<rparr>]"
proof -
  let ?classify = "\<lambda>r. find_category_loop icd11_ranges (upper (strip (col r)))"
  let ?result = "map (\<lambda>r. r\<lparr>ICD_Category := ?classify r\<rparr>)
      (filter (\<lambda>r. startswith (col r) (upper sc)) data)"
  have "filtered_sc data sc = Inr ?result" by (rule filtered_sc_eq)
  moreover have "map col ?result = filter (\<lambda>c. startswith c (upper sc)) (map col data)"
    by (simp add: filter_map comp_def)
  moreover have "map row.more ?result
      = map row.more (filter (\<lambda>r. startswith (col r) (upper sc)) data)"
    by (simp add: comp_def)
  moreover have "map (\<lambda>r. find_category (PyStr (col r))) ?result
      = map (\<lambda>r. Inr (ICD_Category r)) ?result"
    by (simp add: comp_def find_category_def)
  ultimately have first: "\<exists>result. filtered_sc data sc = Inr result \<and>
      map col result = filter (\<lambda>c. startswith c (upper sc)) (map col data) \<and>
      map row.more result
        = map row.more (filter (\<lambda>r. startswith (col r) (upper sc)) data) \<and>
      map (\<lambda>r. find_category (PyStr (col r))) result
        = map (\<lambda>r. Inr (ICD_Category r)) result"
    by blast
  have second: "\<exists>result. filtered_sc data [] = Inr result \<and> map col result = map col data"
    by (simp add: filtered_sc_eq upper_def comp_def)
  have third:
    "filtered_sc [\<lparr>col = ''2A20'', ICD_Category = ''outdated''\<rparr>,
                \<lparr>col = ''1A00'', ICD_Category = ''outdated''\<rparr>] ''2a''
     = Inr [\<lparr>col = ''2A20'', ICD_Category = ''2. Neoplasms''\<rparr>]"
    by (simp add: filtered_sc_eq icd11_ranges_def upper_def strip_def isspace_def
        upper_char_def)
  from first second third show ?thesis by blast
qed

section \<open>Properties of the summary\<close>

text \<open>
  The table of counts lists the distinct values in the order of their first occurrence
  (\<open>rev (remdups (rev xs))\<close> keeps the first occurrence of every value), each with the
  number of its occurrences.
\<close>

lemma bump_map:
  "distinct ks \<Longrightarrow>
   bump x (map (\<lambda>k. (k, f k)) ks) =
     (if x \<in> set ks then map (\<lambda>k. (k, if k = x then Suc (f k) else f k)) ks
      else map (\<lambda>k. (k, f k)) ks @ [(x, 1)])"
  by (induction ks) auto

lemma tally_snoc: "tally (xs @ [x]) = bump x (tally xs)"
  by (simp add: tally_def)

lemma tally_eq:
  "tally xs = map (\<lambda>k. (k, count_list xs k)) (rev (remdups (rev xs)))"
proof (induction xs rule: rev_induct)
  case Nil
  then show ?case by (simp add: tally_def)
next
  case (snoc x xs)
  let ?F = "rev (remdups (rev xs))"
  have d: "distinct ?F" by simp
  have s: "set ?F = set xs" by simp
  show ?case
  proof (cases "x \<in> set xs")
    case True
    then show ?thesis
      using bump_map[OF d, of x "count_list xs"] snoc.IH s
      by (simp add: tally_snoc)
  next
    case False
    then have "map (\<lambda>k. (k, count_list xs k)) ?F
        = map (\<lambda>k. (k, count_list xs k + (if x = k then 1 else 0))) ?F"
      by (intro map_cong) auto
    then show ?thesis
      using False bump_map[OF d, of x "count_list xs"] snoc.IH s
      by (auto simp add: tally_snoc)
  qed
qed

lemma sum_snd_bump: "sum_list (map snd (bump k t)) = Suc (sum_list (map snd t))"
  by (induction k t rule: bump.induct) auto

lemma sum_snd_tally: "sum_list (map snd (tally xs)) = length xs"
  by (induction xs rule: rev_induct) (simp_all add: tally_snoc sum_snd_bump, simp add: tally_def)

lemma keys_tally: "map fst (tally xs) = rev (remdups (rev xs))"
  by (simp add: tally_eq comp_def)

lemma value_counts_exists:
  "value_counts xs (sort_key (\<lambda>(k, n). - int n) (tally xs))"
proof -
  have "sorted (map (\<lambda>(k, n). - int n) (sort_key (\<lambda>(k, n). - int n) (tally xs)))"
    by (rule sorted_sort_key)
  then have "sorted_wrt (\<lambda>a b. snd a \<ge> snd b) (sort_key (\<lambda>(k, n). - int n) (tally xs))"
    by (simp add: sorted_map case_prod_beta)
  then show ?thesis by (simp add: value_counts_def sorted_wrt_map)
qed

lemma value_counts_keys:
  assumes "value_counts xs result"
  shows "distinct (map fst result) \<and> set (map fst result) = set xs"
proof -
  have m: "mset (map fst result) = mset (map fst (tally xs))"
    using assms by (simp add: value_counts_def)
  have "distinct (map fst (tally xs))" by (simp add: keys_tally)
  then have "distinct (map fst result)"
    using m by (metis mset_eq_imp_distinct_iff)
  moreover have "set (map fst result) = set (map fst (tally xs))"
    using m by (rule mset_eq_setD)
  ultimately show ?thesis by (simp add: keys_tally)
qed

lemma value_counts_counts:
  assumes "value_counts xs result"
  shows "map snd result = map (count_list xs) (map fst result)"
proof -
  have s: "set result = set (tally xs)"
    using assms by (auto simp: value_counts_def dest: mset_eq_setD)
  have "snd e = count_list xs (fst e)" if "e \<in> set result" for e
    using that s by (auto simp: tally_eq)
  then show ?thesis by simp
qed

lemma value_counts_sum:
  assumes "value_counts xs result"
  shows "sum_list (map snd result) = length xs"
proof -
  have "mset (map snd result) = mset (map snd (tally xs))"
    using assms by (simp add: value_counts_def)
  then have "sum_list (map snd result) = sum_list (map snd (tally xs))"
    by (metis sum_mset_sum_list)
  then show ?thesis by (simp add: sum_snd_tally)
qed

text \<open>
  C4, as amended. For every data the summary has a result, and every result it may have
  lists each category that occurs in the \<open>ICD_Category\<close> column of the data (\<open>Unknown\<close>
  included when it occurs) exactly once and nothing else; the count of an entry is the
  number of rows with that category, so the counts add up to the number of rows; and
  the counts are in descending order. Nothing is said about the order of entries with
  equal counts. For the codes \<open>2A20\<close>, \<open>1A00\<close>, \<open>zzzz\<close>, \<open>2a21\<close> one such result is
  Neoplasms 2, infectious diseases 1, Unknown 1.
\<close>

theorem summary_counts:
  "(\<exists>result. summary data result) \<and>
   (\<forall>result. summary data result \<longrightarrow>
      distinct (map fst result) \<and>
      set (map fst result) = ICD_Category ` set data \<and>
      map snd result = map (count_list (map ICD_Category data)) (map fst result) \<and>
      sum_list (map snd result) = length data \<and>
      sorted_wrt (\<ge>) (map snd result)) \<and>
   (\<exists>data. load [PyStr ''2A20'', PyStr ''1A00'', PyStr ''zzzz'', PyStr ''2a21''] = Inr data \<and>
      summary data
        [(''2. Neoplasms'', 2),
         (''1. Certain infectious or parasitic diseases'', 1),
         (''Unknown'', 1)])"
proof -
  have ex: "\<exists>result. summary data result"
    unfolding summary_def using value_counts_exists by blast
  have props: "distinct (map fst result) \<and>
      set (map fst result) = ICD_Category ` set data \<and>
      map snd result = map (count_list (map ICD_Category data)) (map fst result) \<and>
      sum_list (map snd result) = length data \<and>
      sorted_wrt (\<ge>) (map snd result)"
    if "summary data result" for result
  proof -
    from that have v: "value_counts (map ICD_Category data) result"
      by (simp add: summary_def)
    from value_counts_keys[OF v] value_counts_counts[OF v] value_counts_sum[OF v] v
    show ?thesis by (simp add: value_counts_def)
  qed
  have loaded:
    "load [PyStr ''2A20'', PyStr ''1A00'', PyStr ''zzzz'', PyStr ''2a21'']
       = Inr [\<lparr>col = ''2A20'', ICD_Category = ''2. Neoplasms''\<rparr>,
              \<lparr>col = ''1A00'',
               ICD_Category = ''1. Certain infectious or parasitic diseases''\<rparr>,
              \<lparr>col = ''ZZZZ'', ICD_Category = ''Unknown''\<rparr>,
              \<lparr>col = ''2A21'', ICD_Category = ''2. Neoplasms''\<rparr>]"
    by (simp add: load_def eval_defs)
  have example:
    "\<exists>data. load [PyStr ''2A20'', PyStr ''1A00'', PyStr ''zzzz'', PyStr ''2a21''] = Inr data \<and>
      summary data
        [(''2. Neoplasms'', 2),
         (''1. Certain infectious or parasitic diseases'', 1),
         (''Unknown'', 1)]"
    unfolding loaded by (simp add: summary_def value_counts_def tally_def)
  from ex props example show ?thesis by blast
qed

theorem summary_counts_witness:
  "summary [\<lparr>col = ''2A20'', ICD_Category = ''2. Neoplasms''\<rparr>,
            \<lparr>col = ''ZZZZ'', ICD_Category = ''Unknown''\<rparr>,
            \<lparr>col = ''2A21'', ICD_Category = ''2. Neoplasms''\<rparr>]
     [(''2. Neoplasms'', 2), (''Unknown'', 1)] \<and>
   distinct (map fst [(''2. Neoplasms'', 2 :: nat), (''Unknown'', 1)]) \<and>
   sum_list (map snd [(''2. Neoplasms'', 2 :: nat), (''Unknown'', 1)])
     = length [\<lparr>col = ''2A20'', ICD_Category = ''2. Neoplasms''\<rparr>,
               \<lparr>col = ''ZZZZ'', ICD_Category = ''Unknown''\<rparr>,
               \<lparr>col = ''2A21'', ICD_Category = ''2. Neoplasms''\<rparr>]"
proof -
  let ?data = "[\<lparr>col = ''2A20'', ICD_Category = ''2. Neoplasms''\<rparr>,
                \<lparr>col = ''ZZZZ'', ICD_Category = ''Unknown''\<rparr>,
                \<lparr>col = ''2A21'', ICD_Category = ''2. Neoplasms''\<rparr>]"
  have h: "summary ?data [(''2. Neoplasms'', 2), (''Unknown'', 1)]"
    by (simp add: summary_def value_counts_def tally_def)
  from summary_counts[of ?data] h
  have "distinct (map fst [(''2. Neoplasms'', 2 :: nat), (''Unknown'', 1)]) \<and>
      sum_list (map snd [(''2. Neoplasms'', 2 :: nat), (''Unknown'', 1)]) = length ?data"
    by blast
  with h show ?thesis by blast
qed

text \<open>
  The claim as first stated also fixes the order of entries with equal counts to the
  order in which their categories first occur. That does not follow: in the data below
  the infectious chapter occurs before \<open>Unknown\<close>, both once, and a result listing
  \<open>Unknown\<close> before the infectious chapter is among those the summary may have.
\<close>

theorem summary_tie_order_counterexample:
  "summary [\<lparr>col = ''2A20'', ICD_Category = ''2. Neoplasms''\<rparr>,
            \<lparr>col = ''1A00'', ICD_Category = ''1. Certain infectious or parasitic diseases''\<rparr>,
            \<lparr>col = ''ZZZZ'', ICD_Category = ''Unknown''\<rparr>,
            \<lparr>col = ''2A21'', ICD_Category = ''2. Neoplasms''\<rparr>]
     [(''2. Neoplasms'', 2),
      (''Unknown'', 1),
      (''1. Certain infectious or parasitic diseases'', 1)] \<and>
   rev (remdups (rev (map ICD_Category
     [\<lparr>col = ''2A20'', ICD_Category = ''2. Neoplasms''\<rparr>,
      \<lparr>col = ''1A00'', ICD_Category = ''1. Certain infectious or parasitic diseases''\<rparr>,
      \<lparr>col = ''ZZZZ'', ICD_Category = ''Unknown''\<rparr>,
      \<lparr>col = ''2A21'', ICD_Category = ''2. Neoplasms''\<rparr>])))
     = [''2. Neoplasms'', ''1. Certain infectious or parasitic diseases'', ''Unknown'']"
  by (simp add: summary_def value_counts_def tally_def)

section \<open>The searches as operations on the heap\<close>

lemma lookup_append: "lookup h a = Some rows \<Longrightarrow> lookup (h @ h') a = Some rows"
  by (auto simp: lookup_def nth_append split: if_splits)

lemma lookup_new: "lookup (h @ [rows]) (length h) = Some rows"
  by (simp add: lookup_def)

lemma range_search_result:
  "lookup h data = Some rows \<Longrightarrow>
   range_search h data start end = Some (length h, h @ [filtered rows start end])"
  by (simp add: range_search_def getitem_mask_def alloc_def filtered_def)

lemma specific_code_search_result:
  assumes "lookup h data = Some rows"
  shows "\<exists>result. filtered_sc rows sc = Inr result \<and>
     specific_code_search h data sc =
       Some (Suc (length h),
             h @ [filter (\<lambda>r. startswith (col r) (upper sc)) rows, result])"
  using assms
  by (simp add: filtered_sc_eq specific_code_search_def getitem_mask_def copy_def
      setitem_ICD_Category_def alloc_def lookup_def nth_append
      series_apply_find_category zip_assign)

lemma subseq_filtered: "subseq (filtered rows start end) rows"
  by (simp add: filtered_def)

text \<open>
  C9. Neither search changes the data. When \<open>data\<close> is a frame of the heap, each
  search returns a frame at a new address, leaves \<open>data\<close> and every other frame that
  existed before as it was (all columns, \<open>ICD_Category\<close> included; the column
  assignment of the specific code search hits the copy), and the rows it returns are
  taken from the data in the data's order: a subsequence of the rows for the range
  search, a subsequence with \<open>ICD_Category\<close> assigned for the specific code search.
  Running the same search again on the resulting heap returns a frame with the same
  rows in the same order, and the data is still unchanged.
\<close>

theorem searches_read_only:
  assumes "lookup h data = Some rows"
  shows
    "(\<exists>a h'. range_search h data start end = Some (a, h') \<and>
        lookup h' data = Some rows \<and> take (length h) h' = h \<and> a \<noteq> data \<and>
        lookup h' a = Some (filtered rows start end) \<and>
        subseq (filtered rows start end) rows \<and>
        (\<exists>a2 h2. range_search h' data start end = Some (a2, h2) \<and>
           lookup h2 data = Some rows \<and> lookup h2 a2 = lookup h' a)) \<and>
     (\<exists>a h' result. specific_code_search h data sc = Some (a, h') \<and>
        lookup h' data = Some rows \<and> take (length h) h' = h \<and> a \<noteq> data \<and>
        filtered_sc rows sc = Inr result \<and> lookup h' a = Some result \<and>
        (\<exists>ys. subseq ys rows \<and> map col result = map col ys \<and>
           map row.more result = map row.more ys) \<and>
        (\<exists>a2 h2. specific_code_search h' data sc = Some (a2, h2) \<and>
           lookup h2 data = Some rows \<and> lookup h2 a2 = lookup h' a))"
proof -
  have lt: "data < length h" using assms by (simp add: lookup_def split: if_splits)
  let ?h1 = "h @ [filtered rows start end]"
  have r1: "range_search h data start end = Some (length h, ?h1)"
    using assms by (rule range_search_result)
  have d1: "lookup ?h1 data = Some rows" using assms by (rule lookup_append)
  have r2: "range_search ?h1 data start end = Some (length ?h1, ?h1 @ [filtered rows start end])"
    using d1 by (rule range_search_result)
  have d2: "lookup (?h1 @ [filtered rows start end]) data = Some rows"
    using d1 by (rule lookup_append)
  have range: "\<exists>a h'. range_search h data start end = Some (a, h') \<and>
        lookup h' data = Some rows \<and> take (length h) h' = h \<and> a \<noteq> data \<and>
        lookup h' a = Some (filtered rows start end) \<and>
        subseq (filtered rows start end) rows \<and>
        (\<exists>a2 h2. range_search h' data start end = Some (a2, h2) \<and>
           lookup h2 data = Some rows \<and> lookup h2 a2 = lookup h' a)"
    using r1 d1 r2 d2 lt subseq_filtered[of rows start "end"] lookup_new[of h]
      lookup_new[of ?h1]
    by (intro exI[of _ "length h"] exI[of _ ?h1] conjI
        exI[of _ "length ?h1"] exI[of _ "?h1 @ [filtered rows start end]"]) simp_all
  let ?m = "filter (\<lambda>r. startswith (col r) (upper sc)) rows"
  from specific_code_search_result[OF assms, of sc] obtain result
    where res: "filtered_sc rows sc = Inr result"
      and s1: "specific_code_search h data sc = Some (Suc (length h), h @ [?m, result])"
    by blast
  let ?g1 = "h @ [?m, result]"
  have e1: "lookup ?g1 data = Some rows" using assms by (rule lookup_append)
  from specific_code_search_result[OF e1, of sc] res
  have s2: "specific_code_search ?g1 data sc = Some (Suc (length ?g1), ?g1 @ [?m, result])"
    by simp
  have e2: "lookup (?g1 @ [?m, result]) data = Some rows"
    using e1 by (rule lookup_append)
  have n1: "lookup ?g1 (Suc (length h)) = Some result"
    by (simp add: lookup_def nth_append)
  have n2: "lookup (?g1 @ [?m, result]) (Suc (length ?g1)) = Some result"
    by (simp add: lookup_def nth_append)
  have sub: "\<exists>ys. subseq ys rows \<and> map col result = map col ys \<and>
      map row.more result = map row.more ys"
    using res by (intro exI[of _ ?m]) (auto simp: filtered_sc_eq comp_def)
  have prefix: "\<exists>a h' result. specific_code_search h data sc = Some (a, h') \<and>
        lookup h' data = Some rows \<and> take (length h) h' = h \<and> a \<noteq> data \<and>
        filtered_sc rows sc = Inr result \<and> lookup h' a = Some result \<and>
        (\<exists>ys. subseq ys rows \<and> map col result = map col ys \<and>
           map row.more result = map row.more ys) \<and>
        (\<exists>a2 h2. specific_code_search h' data sc = Some (a2, h2) \<and>
           lookup h2 data = Some rows \<and> lookup h2 a2 = lookup h' a)"
  proof -
    have again: "\<exists>a2 h2. specific_code_search ?g1 data sc = Some (a2, h2) \<and>
        lookup h2 data = Some rows \<and> lookup h2 a2 = lookup ?g1 (Suc (length h))"
      using s2 e2 n1 n2 by simp
    have tk: "take (length h) ?g1 = h" by simp
    have ne: "Suc (length h) \<noteq> data" using lt by simp
    from s1 e1 tk ne res n1 sub again show ?thesis by blast
  qed
  from range prefix show ?thesis by blast
qed

theorem searches_read_only_witness:
  "lookup [[\<lparr>col = ''2A20'', ICD_Category = ''outdated''\<rparr>,
            \<lparr>col = ''1A00'', ICD_Category = ''outdated''\<rparr>]] 0
     = Some [\<lparr>col = ''2A20'', ICD_Category = ''outdated''\<rparr>,
             \<lparr>col = ''1A00'', ICD_Category = ''outdated''\<rparr>] \<and>
   (\<exists>a h'. specific_code_search
        [[\<lparr>col = ''2A20'', ICD_Category = ''outdated''\<rparr>,
          \<lparr>col = ''1A00'', ICD_Category = ''outdated''\<rparr>]] 0 ''2a'' = Some (a, h') \<and>
      lookup h' 0 = Some [\<lparr>col = ''2A20'', ICD_Category = ''outdated''\<rparr>,
                          \<lparr>col = ''1A00'', ICD_Category = ''outdated''\<rparr>] \<and>
      lookup h' a = Some [\<lparr>col = ''2A20'', ICD_Category = ''2. Neoplasms''\<rparr>])"
proof -
  let ?rows = "[\<lparr>col = ''2A20'', ICD_Category = ''outdated''\<rparr>,
                \<lparr>col = ''1A00'', ICD_Category = ''outdated''\<rparr>]"
  have h: "lookup [?rows] 0 = Some ?rows" by (simp add: lookup_def)
  have f: "filtered_sc ?rows ''2a''
      = Inr [\<lparr>col = ''2A20'', ICD_Category = ''2. Neoplasms''\<rparr>]"
    by (simp add: filtered_sc_eq icd11_ranges_def upper_def strip_def isspace_def
        upper_char_def)
  from searches_read_only[OF h, of "''2a''" "''2f''" "''2a''"] h f
  show ?thesis by auto
qed

end
